theory Spec2Isabelle
  imports Main "HOL-Library.AList"
begin

section \<open>CinemaVerse: the client-side stores of session, cart and favorites\<close>

text \<open>
  A shallow embedding of \<^verbatim>\<open>storage.service.ts\<close> (StorageService, FavoriteService) and
  \<^verbatim>\<open>cart.service.ts\<close> (CartService, AuthService). The browser (session storage, cookies,
  clock, console), \<^verbatim>\<open>JSON\<close> and the URI codec are modelled beside the services, since the
  services are written against them.
\<close>

subsection \<open>JSON\<close>

text \<open>
  A JavaScript value that \<^verbatim>\<open>JSON\<close> can carry. Numbers are integers: fractions and exponents
  are not modelled, and the parser rejects them. An object is the list of its properties in
  insertion order. Strings are byte strings.
\<close>

datatype error =
    SecurityError | QuotaExceededError | SyntaxError | URIError | RangeError | TypeError
  | Thrown string

datatype json =
    JNull | JBool bool | JNum int | JStr string
  | JArr "json list" | JObj "(string \<times> json) list"

definition code :: "char \<Rightarrow> nat" where
  "code c = of_char c"

definition is_digit :: "char \<Rightarrow> bool" where
  "is_digit c = (48 \<le> code c \<and> code c \<le> 57)"

definition digit_char :: "nat \<Rightarrow> char" where
  "digit_char d = char_of (48 + d)"

definition digit_val :: "char \<Rightarrow> nat" where
  "digit_val c = code c - 48"

fun show_nat :: "nat \<Rightarrow> string" where
  "show_nat n = (if n < 10 then [digit_char n] else show_nat (n div 10) @ [digit_char (n mod 10)])"

declare show_nat.simps [simp del]

definition show_int :: "int \<Rightarrow> string" where
  "show_int i = (if i < 0 then CHR ''-'' # show_nat (nat (- i)) else show_nat (nat i))"

definition read_nat :: "string \<Rightarrow> nat" where
  "read_nat ds = foldl (\<lambda>a c. 10 * a + digit_val c) 0 ds"

definition hex_lower :: "nat \<Rightarrow> char" where
  "hex_lower d = (if d < 10 then char_of (48 + d) else char_of (87 + d))"

definition unhex :: "char \<Rightarrow> nat option" where
  "unhex c = (let n = code c in
     if 48 \<le> n \<and> n \<le> 57 then Some (n - 48)
     else if 65 \<le> n \<and> n \<le> 70 then Some (n - 55)
     else if 97 \<le> n \<and> n \<le> 102 then Some (n - 87)
     else None)"

definition escape_char :: "char \<Rightarrow> string" where
  "escape_char c = (let n = code c in
     if n = 34 then [CHR 0x5C, CHR 0x22]
     else if n = 92 then [CHR 0x5C, CHR 0x5C]
     else if n = 8 then [CHR 0x5C, CHR ''b'']
     else if n = 9 then [CHR 0x5C, CHR ''t'']
     else if n = 10 then [CHR 0x5C, CHR ''n'']
     else if n = 12 then [CHR 0x5C, CHR ''f'']
     else if n = 13 then [CHR 0x5C, CHR ''r'']
     else if n < 32 then [CHR 0x5C, CHR ''u'', CHR ''0'', CHR ''0'', hex_lower (n div 16), hex_lower (n mod 16)]
     else [c])"

definition quote :: "string \<Rightarrow> string" where
  "quote s = CHR 0x22 # concat (map escape_char s) @ [CHR 0x22]"

fun commas :: "string list \<Rightarrow> string" where
  "commas [] = []"
| "commas [x] = x"
| "commas (x # y # ys) = x @ CHR '','' # commas (y # ys)"

fun JSON_stringify :: "json \<Rightarrow> string" where
  "JSON_stringify JNull = ''null''"
| "JSON_stringify (JBool b) = (if b then ''true'' else ''false'')"
| "JSON_stringify (JNum n) = show_int n"
| "JSON_stringify (JStr s) = quote s"
| "JSON_stringify (JArr xs) = CHR ''['' # commas (map JSON_stringify xs) @ '']''"
| "JSON_stringify (JObj kvs) =
     CHR ''{'' # commas (map (\<lambda>(k, v). quote k @ CHR '':'' # JSON_stringify v) kvs) @ ''}''"

definition is_ws :: "char \<Rightarrow> bool" where
  "is_ws c = (code c = 32 \<or> code c = 9 \<or> code c = 10 \<or> code c = 13)"

definition skip_ws :: "string \<Rightarrow> string" where
  "skip_ws s = dropWhile is_ws s"

definition utf8 :: "nat \<Rightarrow> string" where
  "utf8 n = (if n < 128 then [char_of n]
     else if n < 2048 then [char_of (192 + n div 64), char_of (128 + n mod 64)]
     else [char_of (224 + n div 4096), char_of (128 + (n div 64) mod 64), char_of (128 + n mod 64)])"

definition unescape :: "char \<Rightarrow> char option" where
  "unescape e = (let n = code e in
     if n = 34 \<or> n = 92 \<or> n = 47 then Some e
     else if e = CHR ''b'' then Some (char_of (8::nat))
     else if e = CHR ''t'' then Some (char_of (9::nat))
     else if e = CHR ''n'' then Some (char_of (10::nat))
     else if e = CHR ''f'' then Some (char_of (12::nat))
     else if e = CHR ''r'' then Some (char_of (13::nat))
     else None)"

definition hex4 :: "char \<Rightarrow> char \<Rightarrow> char \<Rightarrow> char \<Rightarrow> nat option" where
  "hex4 a b c d = (case (unhex a, unhex b, unhex c, unhex d) of
      (Some w, Some x, Some y, Some z) \<Rightarrow> Some (4096 * w + 256 * x + 16 * y + z)
    | _ \<Rightarrow> None)"

fun parse_string :: "string \<Rightarrow> string \<Rightarrow> (string \<times> string) option" where
  "parse_string acc [] = None"
| "parse_string acc (c # cs) =
    (if code c = 34 then Some (acc, cs)
     else if code c = 92 then
       (case cs of
          [] \<Rightarrow> None
        | e # es \<Rightarrow>
            if e = CHR ''u'' then
              (case es of
                 a # b # c' # d # r \<Rightarrow>
                   (case hex4 a b c' d of
                      None \<Rightarrow> None
                    | Some n \<Rightarrow> parse_string (acc @ utf8 n) r)
               | _ \<Rightarrow> None)
            else
              (case unescape e of
                 None \<Rightarrow> None
               | Some ch \<Rightarrow> parse_string (acc @ [ch]) es))
     else if code c < 32 then None
     else parse_string (acc @ [c]) cs)"

definition int_digits :: "string \<Rightarrow> string" where
  "int_digits body = (if body \<noteq> [] \<and> hd body = CHR ''0'' then ''0'' else takeWhile is_digit body)"

definition frac_start :: "string \<Rightarrow> bool" where
  "frac_start rest = (rest \<noteq> [] \<and> (hd rest = CHR ''.'' \<or> hd rest = CHR ''e'' \<or> hd rest = CHR ''E''))"

definition parse_unsigned :: "string \<Rightarrow> (nat \<times> string) option" where
  "parse_unsigned body =
    (let ds = int_digits body; rest = drop (length ds) body
     in if ds = [] \<or> frac_start rest then None else Some (read_nat ds, rest))"

definition parse_number :: "string \<Rightarrow> (json \<times> string) option" where
  "parse_number s =
    (if s \<noteq> [] \<and> hd s = CHR ''-''
     then map_option (\<lambda>(n, r). (JNum (- int n), r)) (parse_unsigned (tl s))
     else map_option (\<lambda>(n, r). (JNum (int n), r)) (parse_unsigned s))"

definition literal :: "string \<Rightarrow> json \<Rightarrow> string \<Rightarrow> (json \<times> string) option" where
  "literal w v s = (if take (length w) s = w then Some (v, drop (length w) s) else None)"

fun parse_value :: "nat \<Rightarrow> string \<Rightarrow> (json \<times> string) option"
  and parse_elements :: "nat \<Rightarrow> json list \<Rightarrow> string \<Rightarrow> (json \<times> string) option"
  and parse_members :: "nat \<Rightarrow> (string \<times> json) list \<Rightarrow> string \<Rightarrow> (json \<times> string) option"
where
  "parse_value 0 s = None"
| "parse_value (Suc f) s =
    (case skip_ws s of
       [] \<Rightarrow> None
     | c # r \<Rightarrow>
         if c = CHR ''['' then
           (case skip_ws r of
              [] \<Rightarrow> None
            | d # r' \<Rightarrow> if d = CHR '']'' then Some (JArr [], r') else parse_elements f [] r)
         else if c = CHR ''{'' then
           (case skip_ws r of
              [] \<Rightarrow> None
            | d # r' \<Rightarrow> if d = CHR ''}'' then Some (JObj [], r') else parse_members f [] r)
         else if code c = 34 then
           (case parse_string [] r of None \<Rightarrow> None | Some (str, r') \<Rightarrow> Some (JStr str, r'))
         else if c = CHR ''t'' then literal ''true'' (JBool True) (c # r)
         else if c = CHR ''f'' then literal ''false'' (JBool False) (c # r)
         else if c = CHR ''n'' then literal ''null'' JNull (c # r)
         else parse_number (c # r))"
| "parse_elements 0 acc s = None"
| "parse_elements (Suc f) acc s =
    (case parse_value f s of
       None \<Rightarrow> None
     | Some (v, r) \<Rightarrow>
         (case skip_ws r of
            [] \<Rightarrow> None
          | c # r' \<Rightarrow>
              if c = CHR '','' then parse_elements f (acc @ [v]) r'
              else if c = CHR '']'' then Some (JArr (acc @ [v]), r')
              else None))"
| "parse_members 0 acc s = None"
| "parse_members (Suc f) acc s =
    (case skip_ws s of
       [] \<Rightarrow> None
     | q # r \<Rightarrow>
         if code q \<noteq> 34 then None
         else
           (case parse_string [] r of
              None \<Rightarrow> None
            | Some (k, r1) \<Rightarrow>
                (case skip_ws r1 of
                   [] \<Rightarrow> None
                 | c # r2 \<Rightarrow>
                     if c \<noteq> CHR '':'' then None
                     else
                       (case parse_value f r2 of
                          None \<Rightarrow> None
                        | Some (v, r3) \<Rightarrow>
                            (case skip_ws r3 of
                               [] \<Rightarrow> None
                             | d # r4 \<Rightarrow>
                                 if d = CHR '','' then parse_members f (AList.update k v acc) r4
                                 else if d = CHR ''}'' then Some (JObj (AList.update k v acc), r4)
                                 else None)))))"

definition JSON_parse :: "string \<Rightarrow> error + json" where
  "JSON_parse s =
    (case parse_value (2 * length s + 1) s of
       None \<Rightarrow> Inl SyntaxError
     | Some (v, r) \<Rightarrow> if skip_ws r = [] then Inr v else Inl SyntaxError)"


text \<open>Well-formed values: a JavaScript object has each key once.\<close>

fun wf_json :: "json \<Rightarrow> bool" where
  "wf_json (JArr xs) = list_all wf_json xs"
| "wf_json (JObj kvs) = (distinct (map fst kvs) \<and> list_all (\<lambda>kv. wf_json (snd kv)) kvs)"
| "wf_json _ = True"

fun jsize :: "json \<Rightarrow> nat" where
  "jsize (JArr xs) = Suc (sum_list (map (\<lambda>x. Suc (jsize x)) xs))"
| "jsize (JObj kvs) = Suc (sum_list (map (\<lambda>kv. Suc (jsize (snd kv))) kvs))"
| "jsize _ = Suc 0"

definition delim :: "string \<Rightarrow> bool" where
  "delim r = (case r of [] \<Rightarrow> True | c # _ \<Rightarrow> c = CHR '','' \<or> c = CHR '']'' \<or> c = CHR ''}'')"

definition starter :: "char \<Rightarrow> bool" where
  "starter c = (\<not> is_ws c \<and> c \<noteq> CHR '']'' \<and> c \<noteq> CHR ''}'' \<and> c \<noteq> CHR '','')"

definition enough :: "json \<Rightarrow> bool" where
  "enough v = (\<forall>f r. jsize v \<le> f \<longrightarrow> delim r \<longrightarrow> parse_value f (JSON_stringify v @ r) = Some (v, r))"

definition member_text :: "string \<times> json \<Rightarrow> string" where
  "member_text kv = quote (fst kv) @ CHR '':'' # JSON_stringify (snd kv)"

subsection \<open>JavaScript values as the services read them\<close>

text \<open>Truthiness of a parsed value, as \<^verbatim>\<open>if (x)\<close>, \<^verbatim>\<open>!x\<close> and \<^verbatim>\<open>a || b\<close> test it.\<close>

fun truthy :: "json \<Rightarrow> bool" where
  "truthy JNull = False"
| "truthy (JBool b) = b"
| "truthy (JNum n) = (n \<noteq> 0)"
| "truthy (JStr s) = (s \<noteq> [])"
| "truthy (JArr xs) = True"
| "truthy (JObj kvs) = True"

text \<open>\<^verbatim>\<open>String(v)\<close>, the conversion \<^verbatim>\<open>parseInt\<close> applies to its argument.\<close>

fun to_String :: "json \<Rightarrow> string" where
  "to_String JNull = ''null''"
| "to_String (JBool b) = (if b then ''true'' else ''false'')"
| "to_String (JNum n) = show_int n"
| "to_String (JStr s) = s"
| "to_String (JArr xs) =
     commas (map (\<lambda>x. case x of JNull \<Rightarrow> [] | _ \<Rightarrow> to_String x) xs)"
| "to_String (JObj kvs) = ''[object Object]''"

text \<open>\<^verbatim>\<open>parseInt(v, 10)\<close>: leading white space, an optional sign, then the longest run of
  decimal digits; \<open>None\<close> is \<^verbatim>\<open>NaN\<close>.\<close>

definition parseInt :: "json \<Rightarrow> int option" where
  "parseInt v =
    (let s = skip_ws (to_String v);
         neg = (s \<noteq> [] \<and> hd s = CHR ''-'');
         body = (if s \<noteq> [] \<and> (hd s = CHR ''-'' \<or> hd s = CHR ''+'') then tl s else s);
         ds = takeWhile is_digit body
     in if ds = [] then None
        else Some (if neg then - int (read_nat ds) else int (read_nat ds)))"

subsection \<open>\<^verbatim>\<open>encodeURIComponent\<close> and \<^verbatim>\<open>decodeURIComponent\<close>\<close>

text \<open>Strings are byte strings (the UTF-8 form of the JavaScript string); every byte outside the
  unreserved set is written \<^verbatim>\<open>%XX\<close>. The decoder raises \<^verbatim>\<open>URIError\<close> on a malformed escape;
  its check that the decoded bytes are UTF-8 is not modelled.\<close>

definition unreserved :: "char \<Rightarrow> bool" where
  "unreserved c = (let n = code c in
     (48 \<le> n \<and> n \<le> 57) \<or> (65 \<le> n \<and> n \<le> 90) \<or> (97 \<le> n \<and> n \<le> 122)
     \<or> n = 45 \<or> n = 95 \<or> n = 46 \<or> n = 33 \<or> n = 126 \<or> n = 42 \<or> n = 39 \<or> n = 40 \<or> n = 41)"

definition hex_upper :: "nat \<Rightarrow> char" where
  "hex_upper d = (if d < 10 then char_of (48 + d) else char_of (55 + d))"

definition encode_byte :: "char \<Rightarrow> string" where
  "encode_byte c =
    (if unreserved c then [c]
     else [CHR ''%'', hex_upper (code c div 16), hex_upper (code c mod 16)])"

definition encodeURIComponent :: "string \<Rightarrow> string" where
  "encodeURIComponent s = concat (map encode_byte s)"

fun decodeURIComponent :: "string \<Rightarrow> error + string" where
  "decodeURIComponent [] = Inr []"
| "decodeURIComponent (c # cs) =
    (if c = CHR ''%'' then
       (case cs of
          a # b # r \<Rightarrow>
            (case (unhex a, unhex b) of
               (Some x, Some y) \<Rightarrow>
                 (case decodeURIComponent r of
                    Inl e \<Rightarrow> Inl e
                  | Inr t \<Rightarrow> Inr (char_of (16 * x + y) # t))
             | _ \<Rightarrow> Inl URIError)
        | _ \<Rightarrow> Inl URIError)
     else
       (case decodeURIComponent cs of
          Inl e \<Rightarrow> Inl e
        | Inr t \<Rightarrow> Inr (c # t)))"

subsection \<open>Data model\<close>

text \<open>\<^verbatim>\<open>Omit<FavoriteItem, 'addedAt'>\<close> is \<open>Product\<close>; \<^verbatim>\<open>Omit<CartItem, 'quantity'>\<close> is
  \<open>CartProduct\<close>. The fields \<^verbatim>\<open>id\<close> and \<^verbatim>\<open>image\<close> carry a prime because HOL has constants
  of these names. A \<^verbatim>\<open>number\<close> is an integer here; a \<^verbatim>\<open>Date\<close> is its epoch milliseconds.\<close>

record Product =
  id' :: string
  productId :: string
  name :: string
  price :: int
  image' :: "string option"

record FavoriteItem = Product +
  addedAt :: int

record CartProduct = Product +
  maxStock :: "int option"

record CartItem = CartProduct +
  quantity :: int

record User =
  user_id :: string
  user_name :: string
  email :: string
  avatar :: "string option"

record AuthResponse =
  user :: User
  token :: string
  expiresIn :: "int option"

datatype console_entry =
    ConsoleLog string | ConsoleWarn string | ConsoleError string error

datatype session_op = GetItem string | SetItem string string | RemoveItem string | Clear

datatype cookie_op = CookieRead | CookieWrite string

text \<open>Everything the services can read or write: the two storage tiers of the browser, the clock,
  the console, and the private fields of the three services. \<open>session_fault\<close> and
  \<open>cookie_fault\<close> say which calls of the tier primitives throw (storage disabled, quota
  exhausted) and with what; they are part of the environment and no operation changes them. A
  cookie is stored as name, value and expiry time.\<close>

record world =
  sessionStorage :: "string \<rightharpoonup> string"
  session_fault :: "session_op \<Rightarrow> error option"
  cookie_jar :: "(string \<times> string \<times> int) list"
  cookie_fault :: "cookie_op \<Rightarrow> error option"
  clock :: int
  console :: "console_entry list"
  route :: string
  currentUser :: "User option"
  isAuthenticated :: bool
  cartItems :: "CartItem list"
  cart_currentUserId :: "string option"
  favoriteItems :: "FavoriteItem list"
  fav_currentUserId :: "string option"

subsection \<open>Statements that may throw\<close>

text \<open>A statement either returns a value or throws; both leave a world behind.\<close>

datatype ('a, 's) result = Return 'a 's | Throw error 's

fun state_of :: "('a, 's) result \<Rightarrow> 's" where
  "state_of (Return a s) = s"
| "state_of (Throw e s) = s"

fun value_of :: "('a, 's) result \<Rightarrow> 'a option" where
  "value_of (Return a s) = Some a"
| "value_of (Throw e s) = None"

fun throws :: "('a, 's) result \<Rightarrow> bool" where
  "throws (Return a s) = False"
| "throws (Throw e s) = True"

definition and_then ::
  "('s \<Rightarrow> ('a, 's) result) \<Rightarrow> ('a \<Rightarrow> 's \<Rightarrow> ('b, 's) result) \<Rightarrow> 's \<Rightarrow> ('b, 's) result" where
  "and_then m f s = (case m s of Return a s' \<Rightarrow> f a s' | Throw e s' \<Rightarrow> Throw e s')"

definition try_catch ::
  "('s \<Rightarrow> ('a, 's) result) \<Rightarrow> (error \<Rightarrow> 's \<Rightarrow> ('a, 's) result) \<Rightarrow> 's \<Rightarrow> ('a, 's) result" where
  "try_catch m h s = (case m s of Return a s' \<Rightarrow> Return a s' | Throw e s' \<Rightarrow> h e s')"

text \<open>\<^verbatim>\<open>Array.prototype.forEach\<close>: an exception of the callback ends the loop.\<close>

fun forEach :: "'a list \<Rightarrow> ('a \<Rightarrow> 's \<Rightarrow> (unit, 's) result) \<Rightarrow> 's \<Rightarrow> (unit, 's) result" where
  "forEach [] f s = Return () s"
| "forEach (x # xs) f s =
    (case f x s of Return _ s' \<Rightarrow> forEach xs f s' | Throw e s' \<Rightarrow> Throw e s')"

definition lift :: "error + 'a \<Rightarrow> 's \<Rightarrow> ('a, 's) result" where
  "lift r s = (case r of Inl e \<Rightarrow> Throw e s | Inr a \<Rightarrow> Return a s)"

definition console_log :: "string \<Rightarrow> world \<Rightarrow> world" where
  "console_log msg w = w\<lparr>console := console w @ [ConsoleLog msg]\<rparr>"

definition console_warn :: "string \<Rightarrow> world \<Rightarrow> world" where
  "console_warn msg w = w\<lparr>console := console w @ [ConsoleWarn msg]\<rparr>"

definition console_error :: "string \<Rightarrow> error \<Rightarrow> world \<Rightarrow> world" where
  "console_error msg e w = w\<lparr>console := console w @ [ConsoleError msg e]\<rparr>"

subsection \<open>The tier primitives of the browser\<close>

definition sessionStorage_setItem :: "string \<Rightarrow> string \<Rightarrow> world \<Rightarrow> (unit, world) result" where
  "sessionStorage_setItem k v w =
    (case session_fault w (SetItem k v) of
       Some e \<Rightarrow> Throw e w
     | None \<Rightarrow> Return () (w\<lparr>sessionStorage := (sessionStorage w)(k \<mapsto> v)\<rparr>))"

definition sessionStorage_getItem :: "string \<Rightarrow> world \<Rightarrow> (string option, world) result" where
  "sessionStorage_getItem k w =
    (case session_fault w (GetItem k) of
       Some e \<Rightarrow> Throw e w
     | None \<Rightarrow> Return (sessionStorage w k) w)"

definition sessionStorage_removeItem :: "string \<Rightarrow> world \<Rightarrow> (unit, world) result" where
  "sessionStorage_removeItem k w =
    (case session_fault w (RemoveItem k) of
       Some e \<Rightarrow> Throw e w
     | None \<Rightarrow> Return () (w\<lparr>sessionStorage := (sessionStorage w)(k := None)\<rparr>))"

definition sessionStorage_clear :: "world \<Rightarrow> (unit, world) result" where
  "sessionStorage_clear w =
    (case session_fault w Clear of
       Some e \<Rightarrow> Throw e w
     | None \<Rightarrow> Return () (w\<lparr>sessionStorage := Map.empty\<rparr>))"

text \<open>Reading \<^verbatim>\<open>document.cookie\<close> gives the cookies that have not expired, as
  \<^verbatim>\<open>name=value\<close> joined by \<^verbatim>\<open>"; "\<close>.\<close>

fun join_with :: "string \<Rightarrow> string list \<Rightarrow> string" where
  "join_with sep [] = []"
| "join_with sep [x] = x"
| "join_with sep (x # y # ys) = x @ sep @ join_with sep (y # ys)"

definition entry_text :: "string \<times> string \<times> int \<Rightarrow> string" where
  "entry_text c = fst c @ CHR ''='' # fst (snd c)"

definition live :: "int \<Rightarrow> (string \<times> string \<times> int) list \<Rightarrow> (string \<times> string \<times> int) list" where
  "live now jar = filter (\<lambda>c. now < snd (snd c)) jar"

definition cookie_string :: "world \<Rightarrow> string" where
  "cookie_string w = join_with ''; '' (map entry_text (live (clock w) (cookie_jar w)))"

definition document_cookie_get :: "world \<Rightarrow> (string, world) result" where
  "document_cookie_get w =
    (case cookie_fault w CookieRead of
       Some e \<Rightarrow> Throw e w
     | None \<Rightarrow> Return (cookie_string w) w)"

text \<open>Assigning to \<^verbatim>\<open>document.cookie\<close>: the browser takes the text before the first
  \<^verbatim>\<open>;\<close> as the pair, splits it at its first \<^verbatim>\<open>=\<close> and trims blanks around name and
  value. An expiry that is not in the future removes the cookie of that name; otherwise the
  cookie replaces the one of that name or is added. The expiry is passed as epoch milliseconds
  (the source formats it with \<^verbatim>\<open>toUTCString\<close>). A pair without a name is not stored. The
  attributes \<^verbatim>\<open>path=/\<close>, \<^verbatim>\<open>SameSite\<close> and \<^verbatim>\<open>Secure\<close> and the size limit of a cookie are
  not modelled.\<close>

definition is_blank :: "char \<Rightarrow> bool" where
  "is_blank c = (code c = 32 \<or> code c = 9)"

definition trim :: "string \<Rightarrow> string" where
  "trim s = rev (dropWhile is_blank (rev (dropWhile is_blank s)))"

definition store_cookie ::
  "int \<Rightarrow> string \<Rightarrow> int \<Rightarrow> (string \<times> string \<times> int) list \<Rightarrow> (string \<times> string \<times> int) list" where
  "store_cookie now pair expires jar =
    (let nv = takeWhile (\<lambda>c. c \<noteq> CHR '';'') pair;
         n = trim (takeWhile (\<lambda>c. c \<noteq> CHR ''='') nv);
         v = trim (drop (Suc (length (takeWhile (\<lambda>c. c \<noteq> CHR ''='') nv))) nv)
     in if CHR ''='' \<notin> set nv \<or> n = [] then jar
        else if expires \<le> now then AList.delete n jar
        else AList.update n (v, expires) jar)"

definition document_cookie_set :: "string \<Rightarrow> int \<Rightarrow> world \<Rightarrow> (unit, world) result" where
  "document_cookie_set pair expires w =
    (case cookie_fault w (CookieWrite pair) of
       Some e \<Rightarrow> Throw e w
     | None \<Rightarrow> Return () (w\<lparr>cookie_jar := store_cookie (clock w) pair expires (cookie_jar w)\<rparr>))"

subsection \<open>StorageService\<close>

definition COOKIE_EXPIRY_DAYS :: int where
  "COOKIE_EXPIRY_DAYS = 30"

definition setSessionItem :: "string \<Rightarrow> json \<Rightarrow> world \<Rightarrow> (unit, world) result" where
  "setSessionItem key v =
    try_catch (sessionStorage_setItem key (JSON_stringify v))
      (\<lambda>e w. Return () (console_error ''Error setting session item:'' e w))"

definition getSessionItem :: "string \<Rightarrow> world \<Rightarrow> (json, world) result" where
  "getSessionItem key =
    try_catch
      (and_then (sessionStorage_getItem key)
        (\<lambda>item. case item of
            None \<Rightarrow> Return JNull
          | Some s \<Rightarrow> if s \<noteq> [] then lift (JSON_parse s) else Return JNull))
      (\<lambda>e w. Return JNull (console_error ''Error getting session item:'' e w))"

definition removeSessionItem :: "string \<Rightarrow> world \<Rightarrow> (unit, world) result" where
  "removeSessionItem key =
    try_catch (sessionStorage_removeItem key)
      (\<lambda>e w. Return () (console_error ''Error removing session item:'' e w))"

definition clearSession :: "world \<Rightarrow> (unit, world) result" where
  "clearSession =
    try_catch sessionStorage_clear
      (\<lambda>e w. Return () (console_error ''Error clearing session:'' e w))"

definition setCookie :: "string \<Rightarrow> json \<Rightarrow> int \<Rightarrow> world \<Rightarrow> (unit, world) result" where
  "setCookie nm v days =
    try_catch
      (\<lambda>w. let expires = clock w + days * 24 * 60 * 60 * 1000;
               cookieValue = (case v of JStr s \<Rightarrow> s | _ \<Rightarrow> JSON_stringify v)
           in document_cookie_set (nm @ CHR ''='' # encodeURIComponent cookieValue) expires w)
      (\<lambda>e w. Return () (console_error ''Error setting cookie:'' e w))"

fun split_on :: "char \<Rightarrow> string \<Rightarrow> string list" where
  "split_on d [] = [[]]"
| "split_on d (c # cs) =
    (if c = d then [] # split_on d cs
     else (case split_on d cs of [] \<Rightarrow> [[c]] | x # xs \<Rightarrow> (c # x) # xs))"

fun starts_with :: "string \<Rightarrow> string \<Rightarrow> bool" where
  "starts_with [] s = True"
| "starts_with (p # ps) [] = False"
| "starts_with (p # ps) (c # cs) = (p = c \<and> starts_with ps cs)"

text \<open>The \<^verbatim>\<open>for\<close> loop of \<^verbatim>\<open>getCookie\<close> over the pieces of \<^verbatim>\<open>document.cookie\<close>.\<close>

fun cookie_scan :: "string \<Rightarrow> string list \<Rightarrow> world \<Rightarrow> (json, world) result" where
  "cookie_scan nameEQ [] w = Return JNull w"
| "cookie_scan nameEQ (c0 # ca) w =
    (let c = dropWhile (\<lambda>x. x = CHR '' '') c0
     in if starts_with nameEQ c then
          (case decodeURIComponent (drop (length nameEQ) c) of
             Inl e \<Rightarrow> Throw e w
           | Inr v \<Rightarrow>
               (case JSON_parse v of
                  Inr j \<Rightarrow> Return j w
                | Inl _ \<Rightarrow> Return (JStr v) w))
        else cookie_scan nameEQ ca w)"

definition getCookie :: "string \<Rightarrow> world \<Rightarrow> (json, world) result" where
  "getCookie nm =
    try_catch
      (and_then document_cookie_get
        (\<lambda>s. cookie_scan (nm @ ''='') (split_on (CHR '';'') s)))
      (\<lambda>e w. Return JNull (console_error ''Error getting cookie:'' e w))"

definition deleteCookie :: "string \<Rightarrow> world \<Rightarrow> (unit, world) result" where
  "deleteCookie nm =
    try_catch (document_cookie_set (nm @ ''='') 1000)
      (\<lambda>e w. Return () (console_error ''Error deleting cookie:'' e w))"

definition hasSessionItem :: "string \<Rightarrow> world \<Rightarrow> (bool, world) result" where
  "hasSessionItem key =
    and_then (sessionStorage_getItem key) (\<lambda>item. Return (item \<noteq> None))"

definition hasCookie :: "string \<Rightarrow> world \<Rightarrow> (bool, world) result" where
  "hasCookie nm = and_then (getCookie nm) (\<lambda>j. Return (j \<noteq> JNull))"

definition clearAll :: "string list \<Rightarrow> world \<Rightarrow> (unit, world) result" where
  "clearAll cookieNames =
    and_then clearSession (\<lambda>_. forEach cookieNames deleteCookie)"

text \<open>\<^verbatim>\<open>Array.prototype.findIndex\<close>: the first index whose element satisfies the test, or -1.\<close>

fun findIndex :: "('a \<Rightarrow> bool) \<Rightarrow> 'a list \<Rightarrow> int" where
  "findIndex P [] = - 1"
| "findIndex P (x # xs) =
    (if P x then 0 else (let i = findIndex P xs in if i < 0 then - 1 else i + 1))"

text \<open>\<^verbatim>\<open>!this.currentUserId\<close>: \<^verbatim>\<open>null\<close> and the empty string are falsy.\<close>

fun has_user :: "string option \<Rightarrow> bool" where
  "has_user None = False"
| "has_user (Some u) = (u \<noteq> [])"

text \<open>A sequence of statements; the first one that throws ends it.\<close>

definition statements :: "('s \<Rightarrow> (unit, 's) result) list \<Rightarrow> 's \<Rightarrow> (unit, 's) result" where
  "statements sts = forEach sts (\<lambda>st. st)"

definition assign :: "('s \<Rightarrow> 's) \<Rightarrow> 's \<Rightarrow> (unit, 's) result" where
  "assign f s = Return () (f s)"

subsection \<open>The JSON form of the collections\<close>

definition product_fields :: "'a Product_scheme \<Rightarrow> (string \<times> json) list" where
  "product_fields p =
    [(''id'', JStr (id' p)), (''productId'', JStr (productId p)), (''name'', JStr (name p)),
     (''price'', JNum (price p))]
    @ (case image' p of None \<Rightarrow> [] | Some s \<Rightarrow> [(''image'', JStr s)])"

definition json_of_CartItem :: "CartItem \<Rightarrow> json" where
  "json_of_CartItem it =
    JObj (product_fields it
      @ (case maxStock it of None \<Rightarrow> [] | Some m \<Rightarrow> [(''maxStock'', JNum m)])
      @ [(''quantity'', JNum (quantity it))])"

definition json_of_cart :: "CartItem list \<Rightarrow> json" where
  "json_of_cart items = JArr (map json_of_CartItem items)"

text \<open>The \<^verbatim>\<open>Date\<close> of a favorite is written as its epoch milliseconds (the source writes
  the ISO text of the same instant, which \<^verbatim>\<open>new Date\<close> reads back).\<close>

definition json_of_FavoriteItem :: "FavoriteItem \<Rightarrow> json" where
  "json_of_FavoriteItem it = JObj (product_fields it @ [(''addedAt'', JNum (addedAt it))])"

definition json_of_favorites :: "FavoriteItem list \<Rightarrow> json" where
  "json_of_favorites items = JArr (map json_of_FavoriteItem items)"

fun str_field :: "json option \<Rightarrow> string option" where
  "str_field (Some (JStr s)) = Some s"
| "str_field _ = None"

fun num_field :: "json option \<Rightarrow> int option" where
  "num_field (Some (JNum n)) = Some n"
| "num_field _ = None"

fun opt_str_field :: "json option \<Rightarrow> string option option" where
  "opt_str_field None = Some None"
| "opt_str_field (Some (JStr s)) = Some (Some s)"
| "opt_str_field _ = None"

fun opt_num_field :: "json option \<Rightarrow> int option option" where
  "opt_num_field None = Some None"
| "opt_num_field (Some (JNum n)) = Some (Some n)"
| "opt_num_field _ = None"

text \<open>The typed view of a parsed value. TypeScript's \<^verbatim>\<open>getSessionItem<CartItem[]>\<close> is an
  unchecked cast; a stored value that is not the JSON form of a \<^verbatim>\<open>CartItem[]\<close> is outside that
  type, and the model reads it as the empty collection.\<close>

definition CartItem_of_json :: "json \<Rightarrow> CartItem option" where
  "CartItem_of_json j =
    (case j of
       JObj kvs \<Rightarrow>
         (case (str_field (map_of kvs ''id''), str_field (map_of kvs ''productId''),
                str_field (map_of kvs ''name''), num_field (map_of kvs ''price''),
                opt_str_field (map_of kvs ''image''), opt_num_field (map_of kvs ''maxStock''),
                num_field (map_of kvs ''quantity'')) of
            (Some i, Some p, Some n, Some pr, Some im, Some ms, Some q) \<Rightarrow>
              Some \<lparr>id' = i, productId = p, name = n, price = pr, image' = im,
                    maxStock = ms, quantity = q\<rparr>
          | _ \<Rightarrow> None)
     | _ \<Rightarrow> None)"

definition cart_of_json :: "json \<Rightarrow> CartItem list" where
  "cart_of_json j =
    (case j of
       JArr xs \<Rightarrow> (case those (map CartItem_of_json xs) of Some items \<Rightarrow> items | None \<Rightarrow> [])
     | _ \<Rightarrow> [])"

definition FavoriteItem_of_json :: "json \<Rightarrow> FavoriteItem option" where
  "FavoriteItem_of_json j =
    (case j of
       JObj kvs \<Rightarrow>
         (case (str_field (map_of kvs ''id''), str_field (map_of kvs ''productId''),
                str_field (map_of kvs ''name''), num_field (map_of kvs ''price''),
                opt_str_field (map_of kvs ''image''), num_field (map_of kvs ''addedAt'')) of
            (Some i, Some p, Some n, Some pr, Some im, Some t) \<Rightarrow>
              Some \<lparr>id' = i, productId = p, name = n, price = pr, image' = im, addedAt = t\<rparr>
          | _ \<Rightarrow> None)
     | _ \<Rightarrow> None)"

definition favorites_of_json :: "json \<Rightarrow> FavoriteItem list" where
  "favorites_of_json j =
    (case j of
       JArr xs \<Rightarrow> (case those (map FavoriteItem_of_json xs) of Some items \<Rightarrow> items | None \<Rightarrow> [])
     | _ \<Rightarrow> [])"

subsection \<open>CartService\<close>

definition CART_STORAGE_PREFIX :: string where
  "CART_STORAGE_PREFIX = ''cart_user_''"

definition MAX_QUANTITY_PER_ITEM :: int where
  "MAX_QUANTITY_PER_ITEM = 99"

record CartSyncResponse =
  success :: bool
  cart :: "CartItem list option"

definition clearCartOnLogout :: "world \<Rightarrow> (unit, world) result" where
  "clearCartOnLogout w = Return () (w\<lparr>cartItems := [], cart_currentUserId := None\<rparr>)"

definition cart_getStorageKey :: "world \<Rightarrow> string" where
  "cart_getStorageKey w =
    (if has_user (cart_currentUserId w) then CART_STORAGE_PREFIX @ the (cart_currentUserId w)
     else ''cart_guest'')"

definition loadCartFromStorage :: "world \<Rightarrow> (unit, world) result" where
  "loadCartFromStorage w =
    (if \<not> has_user (cart_currentUserId w) then Return () (w\<lparr>cartItems := []\<rparr>)
     else
       try_catch
         (and_then (getSessionItem (cart_getStorageKey w))
           (\<lambda>cartJson.
              if \<not> truthy cartJson then
                and_then (getCookie (cart_getStorageKey w))
                  (\<lambda>cookieCart.
                     if truthy cookieCart
                     then assign (\<lambda>w. w\<lparr>cartItems := cart_of_json cookieCart\<rparr>)
                     else assign (\<lambda>w. w\<lparr>cartItems := []\<rparr>))
              else assign (\<lambda>w. w\<lparr>cartItems := cart_of_json cartJson\<rparr>)))
         (\<lambda>e w. Return () ((console_error ''Error loading cart from storage:'' e w)\<lparr>cartItems := []\<rparr>))
         w)"

definition loadCartForUser :: "string \<Rightarrow> world \<Rightarrow> (unit, world) result" where
  "loadCartForUser userId w = loadCartFromStorage (w\<lparr>cart_currentUserId := Some userId\<rparr>)"

definition saveCartToStorage :: "world \<Rightarrow> (unit, world) result" where
  "saveCartToStorage w =
    (if \<not> has_user (cart_currentUserId w) then Return () w
     else
       try_catch
         (and_then (setSessionItem (cart_getStorageKey w) (json_of_cart (cartItems w)))
           (\<lambda>_. setCookie (cart_getStorageKey w) (json_of_cart (cartItems w)) 30))
         (\<lambda>e w. Return () (console_error ''Error saving cart to storage:'' e w))
         w)"

text \<open>\<^verbatim>\<open>product.maxStock && q > product.maxStock\<close>: an absent or zero stock limit is falsy.\<close>

fun over_stock :: "int option \<Rightarrow> int \<Rightarrow> bool" where
  "over_stock None q = False"
| "over_stock (Some m) q = (m \<noteq> 0 \<and> q > m)"

definition with_quantity :: "CartProduct \<Rightarrow> int \<Rightarrow> CartItem" where
  "with_quantity p q =
    \<lparr>id' = id' p, productId = productId p, name = name p, price = price p, image' = image' p,
     maxStock = maxStock p, quantity = q\<rparr>"

definition addToCart :: "CartProduct \<Rightarrow> int \<Rightarrow> world \<Rightarrow> (unit, world) result" where
  "addToCart product qty w =
    (let currentItems = cartItems w;
         existingItemIndex = findIndex (\<lambda>item. productId item = productId product) currentItems
     in if existingItemIndex > - 1 then
          (let existingItem = currentItems ! nat existingItemIndex;
               newQuantity = quantity existingItem + qty
           in if over_stock (maxStock product) newQuantity
              then Return () (console_warn ''Cannot add more. Max stock'' w)
              else if newQuantity > MAX_QUANTITY_PER_ITEM
              then Return () (console_warn ''Cannot add more. Max quantity per item'' w)
              else saveCartToStorage
                     (w\<lparr>cartItems := currentItems[nat existingItemIndex :=
                          (currentItems ! nat existingItemIndex)\<lparr>quantity := newQuantity\<rparr>]\<rparr>))
        else if over_stock (maxStock product) qty
          then Return () (console_warn ''Cannot add. Max stock'' w)
        else if qty > MAX_QUANTITY_PER_ITEM
          then Return () (console_warn ''Cannot add. Max quantity'' w)
        else saveCartToStorage (w\<lparr>cartItems := currentItems @ [with_quantity product qty]\<rparr>))"

definition removeFromCart :: "string \<Rightarrow> world \<Rightarrow> (unit, world) result" where
  "removeFromCart pid w =
    saveCartToStorage (w\<lparr>cartItems := filter (\<lambda>item. productId item \<noteq> pid) (cartItems w)\<rparr>)"

definition updateQuantity :: "string \<Rightarrow> int \<Rightarrow> world \<Rightarrow> (unit, world) result" where
  "updateQuantity pid qty w =
    (if qty \<le> 0 then removeFromCart pid w
     else if qty > MAX_QUANTITY_PER_ITEM then Return () (console_warn ''Max quantity'' w)
     else
       (let currentItems = cartItems w;
            itemIndex = findIndex (\<lambda>item. productId item = pid) currentItems
        in if itemIndex > - 1 then
             (let item = currentItems ! nat itemIndex
              in if over_stock (maxStock item) qty
                 then Return () (console_warn ''Max stock available'' w)
                 else saveCartToStorage
                        (w\<lparr>cartItems := currentItems[nat itemIndex :=
                             (currentItems ! nat itemIndex)\<lparr>quantity := qty\<rparr>]\<rparr>))
           else Return () w))"

definition incrementQuantity :: "string \<Rightarrow> world \<Rightarrow> (unit, world) result" where
  "incrementQuantity pid w =
    (case find (\<lambda>item. productId item = pid) (cartItems w) of
       Some item \<Rightarrow> updateQuantity pid (quantity item + 1) w
     | None \<Rightarrow> Return () w)"

definition decrementQuantity :: "string \<Rightarrow> world \<Rightarrow> (unit, world) result" where
  "decrementQuantity pid w =
    (case find (\<lambda>item. productId item = pid) (cartItems w) of
       Some item \<Rightarrow> updateQuantity pid (quantity item - 1) w
     | None \<Rightarrow> Return () w)"

definition clearCart :: "world \<Rightarrow> (unit, world) result" where
  "clearCart w =
    (let w1 = w\<lparr>cartItems := []\<rparr>
     in if has_user (cart_currentUserId w1)
        then and_then (removeSessionItem (cart_getStorageKey w1))
               (\<lambda>_. deleteCookie (cart_getStorageKey w1)) w1
        else Return () w1)"

definition getItemQuantity :: "string \<Rightarrow> world \<Rightarrow> int" where
  "getItemQuantity pid w =
    (case find (\<lambda>item. productId item = pid) (cartItems w) of
       Some item \<Rightarrow> quantity item
     | None \<Rightarrow> 0)"

definition getCartItem :: "string \<Rightarrow> world \<Rightarrow> CartItem option" where
  "getCartItem pid w = find (\<lambda>item. productId item = pid) (cartItems w)"

text \<open>An observable that emits once is a statement: \<open>Return\<close> is the value delivered to the
  subscriber, \<open>Throw\<close> the error delivered to it. The HTTP exchange is the parameter \<open>http\<close>:
  the error or the body the backend answers with. The world is the one at the time the answer
  arrives.\<close>

definition tap ::
  "('a \<Rightarrow> 's \<Rightarrow> (unit, 's) result) \<Rightarrow> ('s \<Rightarrow> ('a, 's) result) \<Rightarrow> 's \<Rightarrow> ('a, 's) result" where
  "tap f obs = and_then obs (\<lambda>a. and_then (f a) (\<lambda>_. Return a))"

definition catchError ::
  "(error \<Rightarrow> 's \<Rightarrow> ('a, 's) result) \<Rightarrow> ('s \<Rightarrow> ('a, 's) result) \<Rightarrow> 's \<Rightarrow> ('a, 's) result" where
  "catchError h obs = try_catch obs h"

definition syncCartWithBackend ::
  "error + CartSyncResponse \<Rightarrow> world \<Rightarrow> (CartSyncResponse, world) result" where
  "syncCartWithBackend http =
    catchError
      (\<lambda>e w. Return \<lparr>success = False, cart = Some (cartItems w)\<rparr>
                (console_error ''Error syncing cart with backend:'' e w))
      (tap
        (\<lambda>response.
           if success response \<and> cart response \<noteq> None
           then (\<lambda>w. saveCartToStorage (w\<lparr>cartItems := the (cart response)\<rparr>))
           else Return ())
        (lift http))"

text \<open>\<^verbatim>\<open>localItem.maxStock || this.MAX_QUANTITY_PER_ITEM\<close>.\<close>

fun stock_or :: "int option \<Rightarrow> int \<Rightarrow> int" where
  "stock_or None d = d"
| "stock_or (Some m) d = (if m = 0 then d else m)"

text \<open>One round of the \<^verbatim>\<open>forEach\<close> of \<^verbatim>\<open>mergeCartOnLogin\<close> over the local cart.\<close>

definition merge_item :: "CartItem list \<Rightarrow> CartItem \<Rightarrow> CartItem list" where
  "merge_item mergedCart localItem =
    (let existingIndex = findIndex (\<lambda>item. productId item = productId localItem) mergedCart
     in if existingIndex > - 1 then
          (let combinedQuantity = quantity (mergedCart ! nat existingIndex) + quantity localItem;
               maxQuantity = min combinedQuantity
                               (min (stock_or (maxStock localItem) MAX_QUANTITY_PER_ITEM)
                                  MAX_QUANTITY_PER_ITEM)
           in mergedCart[nat existingIndex :=
                (mergedCart ! nat existingIndex)\<lparr>quantity := maxQuantity\<rparr>])
        else mergedCart @ [localItem])"

definition mergedCart :: "CartItem list \<Rightarrow> CartItem list \<Rightarrow> CartItem list" where
  "mergedCart serverCart localCart = foldl merge_item serverCart localCart"

text \<open>The closing \<^verbatim>\<open>syncCartWithBackend().subscribe()\<close> only sends the request; what happens
  when the answer arrives is \<open>syncCartWithBackend\<close>.\<close>

definition mergeCartOnLogin :: "CartItem list \<Rightarrow> world \<Rightarrow> (unit, world) result" where
  "mergeCartOnLogin serverCart w =
    saveCartToStorage (w\<lparr>cartItems := mergedCart serverCart (cartItems w)\<rparr>)"

text \<open>A program of cart mutations.\<close>

datatype cart_op =
    AddToCart CartProduct int
  | UpdateQuantity string int
  | IncrementQuantity string
  | DecrementQuantity string
  | RemoveFromCart string

fun cart_step :: "cart_op \<Rightarrow> world \<Rightarrow> (unit, world) result" where
  "cart_step (AddToCart p q) = addToCart p q"
| "cart_step (UpdateQuantity pid q) = updateQuantity pid q"
| "cart_step (IncrementQuantity pid) = incrementQuantity pid"
| "cart_step (DecrementQuantity pid) = decrementQuantity pid"
| "cart_step (RemoveFromCart pid) = removeFromCart pid"

definition cart_run :: "cart_op list \<Rightarrow> world \<Rightarrow> (unit, world) result" where
  "cart_run ops = forEach ops cart_step"

subsection \<open>FavoriteService\<close>

definition STORAGE_PREFIX :: string where
  "STORAGE_PREFIX = ''fav_user_''"

record FavoriteSyncResponse =
  fav_success :: bool
  favorites :: "FavoriteItem list option"

definition clearFavoritesOnLogout :: "world \<Rightarrow> (unit, world) result" where
  "clearFavoritesOnLogout w = Return () (w\<lparr>favoriteItems := [], fav_currentUserId := None\<rparr>)"

definition fav_getStorageKey :: "world \<Rightarrow> string" where
  "fav_getStorageKey w =
    (if has_user (fav_currentUserId w) then STORAGE_PREFIX @ the (fav_currentUserId w)
     else ''fav_guest'')"

text \<open>\<^verbatim>\<open>new Date(x)\<close> of a date or of its serialised form is the same instant.\<close>

definition new_Date :: "int \<Rightarrow> int" where
  "new_Date t = t"

definition parseFavorites :: "FavoriteItem list \<Rightarrow> FavoriteItem list" where
  "parseFavorites favs = map (\<lambda>item. item\<lparr>addedAt := new_Date (addedAt item)\<rparr>) favs"

definition loadFavoritesFromStorage :: "world \<Rightarrow> (unit, world) result" where
  "loadFavoritesFromStorage w =
    (if \<not> has_user (fav_currentUserId w) then Return () (w\<lparr>favoriteItems := []\<rparr>)
     else
       try_catch
         (and_then (getSessionItem (fav_getStorageKey w))
           (\<lambda>favoritesJson.
              if \<not> truthy favoritesJson then
                and_then (getCookie (fav_getStorageKey w))
                  (\<lambda>cookieFavorites.
                     if truthy cookieFavorites
                     then assign (\<lambda>w. w\<lparr>favoriteItems :=
                            parseFavorites (favorites_of_json cookieFavorites)\<rparr>)
                     else assign (\<lambda>w. w\<lparr>favoriteItems := []\<rparr>))
              else assign (\<lambda>w. w\<lparr>favoriteItems :=
                     parseFavorites (favorites_of_json favoritesJson)\<rparr>)))
         (\<lambda>e w. Return ()
            ((console_error ''Error loading favorites from storage:'' e w)\<lparr>favoriteItems := []\<rparr>))
         w)"

definition loadFavoritesForUser :: "string \<Rightarrow> world \<Rightarrow> (unit, world) result" where
  "loadFavoritesForUser userId w = loadFavoritesFromStorage (w\<lparr>fav_currentUserId := Some userId\<rparr>)"

definition saveFavoritesToStorage :: "world \<Rightarrow> (unit, world) result" where
  "saveFavoritesToStorage w =
    (if \<not> has_user (fav_currentUserId w) then Return () w
     else
       try_catch
         (and_then (setSessionItem (fav_getStorageKey w) (json_of_favorites (favoriteItems w)))
           (\<lambda>_. setCookie (fav_getStorageKey w) (json_of_favorites (favoriteItems w)) 30))
         (\<lambda>e w. Return () (console_error ''Error saving favorites to storage:'' e w))
         w)"

definition with_addedAt :: "Product \<Rightarrow> int \<Rightarrow> FavoriteItem" where
  "with_addedAt p t =
    \<lparr>id' = id' p, productId = productId p, name = name p, price = price p, image' = image' p,
     addedAt = t\<rparr>"

definition addToFavorites :: "Product \<Rightarrow> world \<Rightarrow> (unit, world) result" where
  "addToFavorites product w =
    (let currentItems = favoriteItems w;
         exists = list_ex (\<lambda>item. productId item = productId product) currentItems
     in if \<not> exists
        then saveFavoritesToStorage
               (w\<lparr>favoriteItems := currentItems @ [with_addedAt product (clock w)]\<rparr>)
        else Return () w)"

definition removeFromFavorites :: "string \<Rightarrow> world \<Rightarrow> (unit, world) result" where
  "removeFromFavorites pid w =
    saveFavoritesToStorage
      (w\<lparr>favoriteItems := filter (\<lambda>item. productId item \<noteq> pid) (favoriteItems w)\<rparr>)"

definition isFavorite :: "string \<Rightarrow> world \<Rightarrow> bool" where
  "isFavorite pid w = list_ex (\<lambda>item. productId item = pid) (favoriteItems w)"

definition syncFavoritesWithBackend ::
  "error + FavoriteSyncResponse \<Rightarrow> world \<Rightarrow> (FavoriteSyncResponse, world) result" where
  "syncFavoritesWithBackend http =
    catchError
      (\<lambda>e w. Return \<lparr>fav_success = False, favorites = Some (favoriteItems w)\<rparr>
                (console_error ''Error syncing favorites with backend:'' e w))
      (tap
        (\<lambda>response.
           if fav_success response \<and> favorites response \<noteq> None
           then (\<lambda>w. saveFavoritesToStorage
                        (w\<lparr>favoriteItems := parseFavorites (the (favorites response))\<rparr>))
           else Return ())
        (lift http))"

text \<open>The \<^verbatim>\<open>Map\<close> of \<^verbatim>\<open>mergeFavoritesOnLogin\<close> is a list of entries in insertion order;
  \<^verbatim>\<open>set\<close> on a key that is present replaces the value where it stands.\<close>

definition merge_server :: "(string \<times> FavoriteItem) list \<Rightarrow> FavoriteItem \<Rightarrow> (string \<times> FavoriteItem) list" where
  "merge_server mergedMap item = AList.update (productId item) item mergedMap"

definition merge_local :: "(string \<times> FavoriteItem) list \<Rightarrow> FavoriteItem \<Rightarrow> (string \<times> FavoriteItem) list" where
  "merge_local mergedMap localItem =
    (case map_of mergedMap (productId localItem) of
       Some existing \<Rightarrow>
         (let localDate = new_Date (addedAt localItem);
              existingDate = new_Date (addedAt existing)
          in if localDate < existingDate
             then AList.update (productId localItem) localItem mergedMap
             else mergedMap)
     | None \<Rightarrow> AList.update (productId localItem) localItem mergedMap)"

definition mergedFavorites :: "FavoriteItem list \<Rightarrow> FavoriteItem list \<Rightarrow> FavoriteItem list" where
  "mergedFavorites serverFavorites localFavorites =
    map snd (foldl merge_local (foldl merge_server [] serverFavorites) localFavorites)"

definition mergeFavoritesOnLogin :: "FavoriteItem list \<Rightarrow> world \<Rightarrow> (unit, world) result" where
  "mergeFavoritesOnLogin serverFavorites w =
    saveFavoritesToStorage
      (w\<lparr>favoriteItems := mergedFavorites serverFavorites (favoriteItems w)\<rparr>)"

subsection \<open>AuthService\<close>

definition STORAGE_KEY :: string where
  "STORAGE_KEY = ''auth_user''"

definition TOKEN_KEY :: string where
  "TOKEN_KEY = ''auth_token''"

definition TOKEN_EXPIRY_KEY :: string where
  "TOKEN_EXPIRY_KEY = ''auth_token_expiry''"

definition DEFAULT_TOKEN_EXPIRY :: int where
  "DEFAULT_TOKEN_EXPIRY = 30 * 24 * 60 * 60"

definition json_of_User :: "User \<Rightarrow> json" where
  "json_of_User u =
    JObj ([(''id'', JStr (user_id u)), (''name'', JStr (user_name u)), (''email'', JStr (email u))]
      @ (case avatar u of None \<Rightarrow> [] | Some a \<Rightarrow> [(''avatar'', JStr a)]))"

type_synonym login_callback = "string \<Rightarrow> world \<Rightarrow> (unit, world) result"

type_synonym logout_callback = "world \<Rightarrow> (unit, world) result"

definition onLogin :: "login_callback \<Rightarrow> login_callback list \<Rightarrow> login_callback list" where
  "onLogin callback onLoginCallbacks = onLoginCallbacks @ [callback]"

definition onLogout :: "logout_callback \<Rightarrow> logout_callback list \<Rightarrow> logout_callback list" where
  "onLogout callback onLogoutCallbacks = onLogoutCallbacks @ [callback]"

definition notifyLogin :: "login_callback list \<Rightarrow> string \<Rightarrow> world \<Rightarrow> (unit, world) result" where
  "notifyLogin onLoginCallbacks userId =
    and_then
      (assign (console_log (''notifyLogin: Notifying '' @ show_nat (length onLoginCallbacks)
                  @ '' callbacks'')))
      (\<lambda>_. forEach (enumerate 0 onLoginCallbacks)
         (\<lambda>(index, callback).
            try_catch
              (and_then
                 (assign (console_log (''Calling login callback # '' @ show_nat (index + 1))))
                 (\<lambda>_. callback userId))
              (\<lambda>e w. Return () (console_error ''Error in login callback:'' e w))))"

definition notifyLogout :: "logout_callback list \<Rightarrow> world \<Rightarrow> (unit, world) result" where
  "notifyLogout onLogoutCallbacks =
    forEach onLogoutCallbacks
      (\<lambda>callback.
         try_catch callback
           (\<lambda>e w. Return () (console_error ''Error in logout callback:'' e w)))"

text \<open>\<^verbatim>\<open>new Date(t).toISOString()\<close> throws a \<^verbatim>\<open>RangeError\<close> outside the range of dates.\<close>

definition toISOString :: "int \<Rightarrow> world \<Rightarrow> (unit, world) result" where
  "toISOString t w =
    (if \<bar>t\<bar> > 8640000000000000 then Throw RangeError w else Return () w)"

definition handleAuthSuccess ::
  "login_callback list \<Rightarrow> AuthResponse \<Rightarrow> world \<Rightarrow> (unit, world) result" where
  "handleAuthSuccess onLoginCallbacks res w =
    (let expiryInSeconds = (case expiresIn res of
                              None \<Rightarrow> DEFAULT_TOKEN_EXPIRY
                            | Some n \<Rightarrow> if n = 0 then DEFAULT_TOKEN_EXPIRY else n);
         expiryDate = clock w + expiryInSeconds * 1000
     in statements
          [assign (console_log ''handleAuthSuccess called''),
           assign (\<lambda>w. w\<lparr>currentUser := Some (user res), isAuthenticated := True\<rparr>),
           assign (console_log ''Storing token''),
           and_then (toISOString expiryDate) (\<lambda>_. assign (console_log ''Token expiry'')),
           setSessionItem STORAGE_KEY (JStr (JSON_stringify (json_of_User (user res)))),
           setSessionItem TOKEN_KEY (JStr (token res)),
           setSessionItem TOKEN_EXPIRY_KEY (JStr (show_int expiryDate)),
           setCookie ''auth_user'' (json_of_User (user res)) 30,
           setCookie ''auth_token'' (JStr (token res)) 30,
           setCookie ''auth_token_expiry'' (JStr (show_int expiryDate)) 30,
           and_then (sessionStorage_getItem ''auth_token'')
             (\<lambda>_. assign (console_log ''Checking stored token in sessionStorage'')),
           assign (console_log ''Calling notifyLogin''),
           notifyLogin onLoginCallbacks (user_id (user res))]
          w)"

definition logout :: "logout_callback list \<Rightarrow> world \<Rightarrow> (unit, world) result" where
  "logout onLogoutCallbacks =
    statements
      [assign (\<lambda>w. w\<lparr>currentUser := None, isAuthenticated := False\<rparr>),
       notifyLogout onLogoutCallbacks,
       removeSessionItem STORAGE_KEY,
       removeSessionItem TOKEN_KEY,
       removeSessionItem TOKEN_EXPIRY_KEY,
       deleteCookie ''auth_user'',
       deleteCookie ''auth_token'',
       deleteCookie ''auth_token_expiry'',
       assign (\<lambda>w. w\<lparr>route := ''/''\<rparr>)]"

text \<open>\<^verbatim>\<open>a || b\<close> on two reads: the second is made only when the first is falsy.\<close>

definition or_else ::
  "(world \<Rightarrow> (json, world) result) \<Rightarrow> (world \<Rightarrow> (json, world) result) \<Rightarrow> world \<Rightarrow> (json, world) result" where
  "or_else a b = and_then a (\<lambda>x. if truthy x then Return x else b)"

definition getToken :: "world \<Rightarrow> (json, world) result" where
  "getToken = or_else (getSessionItem TOKEN_KEY) (getCookie ''auth_token'')"

text \<open>A comparison with \<^verbatim>\<open>NaN\<close> is false.\<close>

definition isTokenExpiringSoon :: "world \<Rightarrow> (bool, world) result" where
  "isTokenExpiringSoon =
    and_then (or_else (getSessionItem TOKEN_EXPIRY_KEY) (getCookie ''auth_token_expiry''))
      (\<lambda>expiry w.
         if \<not> truthy expiry then Return False w
         else (let expiryTime = parseInt expiry;
                   oneDayFromNow = clock w + 24 * 60 * 60 * 1000
               in Return (case expiryTime of None \<Rightarrow> False | Some t \<Rightarrow> t < oneDayFromNow) w))"

definition isTokenExpired :: "world \<Rightarrow> (bool, world) result" where
  "isTokenExpired =
    and_then (or_else (getSessionItem TOKEN_EXPIRY_KEY) (getCookie ''auth_token_expiry''))
      (\<lambda>expiry w.
         if \<not> truthy expiry then Return True w
         else (let expiryTime = parseInt expiry
               in Return (case expiryTime of None \<Rightarrow> False | Some t \<Rightarrow> clock w \<ge> t) w))"

text \<open>The callbacks the two collection services register in their constructors.\<close>

definition registered_login_callbacks :: "login_callback list" where
  "registered_login_callbacks = onLogin loadFavoritesForUser (onLogin loadCartForUser [])"

definition registered_logout_callbacks :: "logout_callback list" where
  "registered_logout_callbacks = onLogout clearFavoritesOnLogout (onLogout clearCartOnLogout [])"

subsection \<open>Vocabulary of the statements\<close>

text \<open>No call of a tier primitive throws.\<close>

definition no_faults :: "world \<Rightarrow> bool" where
  "no_faults w = ((\<forall>op. session_fault w op = None) \<and> (\<forall>op. cookie_fault w op = None))"

text \<open>What a browser keeps in its cookie store: names are not empty, do not start with a
  blank and contain neither \<^verbatim>\<open>;\<close> nor \<^verbatim>\<open>=\<close>; values contain no \<^verbatim>\<open>;\<close>.\<close>

definition cookie_ok :: "string \<times> string \<times> int \<Rightarrow> bool" where
  "cookie_ok c =
    (fst c \<noteq> [] \<and> hd (fst c) \<noteq> CHR '' '' \<and> CHR '';'' \<notin> set (fst c) \<and> CHR ''='' \<notin> set (fst c)
     \<and> CHR '';'' \<notin> set (fst (snd c)))"

definition jar_ok :: "(string \<times> string \<times> int) list \<Rightarrow> bool" where
  "jar_ok jar = list_all cookie_ok jar"

text \<open>A key that survives as a cookie name: not empty, without \<^verbatim>\<open>;\<close> and \<^verbatim>\<open>=\<close>, and
  without blanks at its ends.\<close>

definition cookie_name_ok :: "string \<Rightarrow> bool" where
  "cookie_name_ok nm =
    (nm \<noteq> [] \<and> CHR '';'' \<notin> set nm \<and> CHR ''='' \<notin> set nm
     \<and> \<not> is_blank (hd nm) \<and> \<not> is_blank (last nm))"

text \<open>What \<^verbatim>\<open>getCookie\<close> makes of the stored text of the cookie it finds.\<close>

definition cookie_value :: "string \<Rightarrow> world \<Rightarrow> (json, world) result" where
  "cookie_value v w =
    (case decodeURIComponent v of
       Inl e \<Rightarrow> Throw e w
     | Inr s \<Rightarrow> (case JSON_parse s of Inr j \<Rightarrow> Return j w | Inl _ \<Rightarrow> Return (JStr s) w))"

text \<open>The text \<^verbatim>\<open>setCookie\<close> assigns to \<^verbatim>\<open>document.cookie\<close>, up to the attributes.\<close>

definition cookie_pair :: "string \<Rightarrow> json \<Rightarrow> string" where
  "cookie_pair nm v =
    nm @ CHR ''='' # encodeURIComponent (case v of JStr s \<Rightarrow> s | _ \<Rightarrow> JSON_stringify v)"

text \<open>The second world differs from the first at most in the two storage tiers and the
  console.\<close>

definition storage_only :: "world \<Rightarrow> world \<Rightarrow> bool" where
  "storage_only w w' =
    (w' = w\<lparr>sessionStorage := sessionStorage w', cookie_jar := cookie_jar w', console := console w'\<rparr>)"

text \<open>The invariant of the \<^verbatim>\<open>Map\<close> of \<^verbatim>\<open>mergeFavoritesOnLogin\<close>: each key once, and each
  entry under the product id of its value.\<close>

definition keyed :: "(string \<times> FavoriteItem) list \<Rightarrow> bool" where
  "keyed m = (distinct (map fst m) \<and> (\<forall>kv\<in>set m. fst kv = productId (snd kv)))"

text \<open>The merged line of a server item: unchanged when the local cart has no line of its
  product, else with the two quantities added and cut at the local stock limit and at 99.\<close>

definition merged_line :: "CartItem list \<Rightarrow> CartItem \<Rightarrow> CartItem" where
  "merged_line localCart s =
    (case find (\<lambda>l. productId l = productId s) localCart of
       None \<Rightarrow> s
     | Some l \<Rightarrow>
         s\<lparr>quantity := min (quantity s + quantity l)
                          (min (stock_or (maxStock l) MAX_QUANTITY_PER_ITEM) MAX_QUANTITY_PER_ITEM)\<rparr>)"

text \<open>The world a caught callback leaves: its own when it returns, and the one at the throw
  with the error logged when it throws.\<close>

definition settled :: "string \<Rightarrow> (unit, world) result \<Rightarrow> world" where
  "settled msg r = (case r of Return _ w' \<Rightarrow> w' | Throw e w' \<Rightarrow> console_error msg e w')"

definition login_call :: "string \<Rightarrow> world \<Rightarrow> nat \<times> login_callback \<Rightarrow> world" where
  "login_call userId w ic =
    settled ''Error in login callback:''
      (snd ic userId (console_log (''Calling login callback # '' @ show_nat (fst ic + 1)) w))"

definition logout_call :: "world \<Rightarrow> logout_callback \<Rightarrow> world" where
  "logout_call w callback = settled ''Error in logout callback:'' (callback w)"

subsection \<open>Worlds and items of the examples\<close>

text \<open>A browser with empty storage in which nothing throws, and nobody signed in.\<close>

definition fresh_world :: world where
  "fresh_world =
    \<lparr>sessionStorage = Map.empty, session_fault = (\<lambda>_. None), cookie_jar = [],
     cookie_fault = (\<lambda>_. None), clock = 5000, console = [], route = [], currentUser = None,
     isAuthenticated = False, cartItems = [], cart_currentUserId = None, favoriteItems = [],
     fav_currentUserId = None\<rparr>"

definition film :: Product where
  "film = \<lparr>id' = ''1'', productId = ''p1'', name = ''Film'', price = 10, image' = None\<rparr>"

definition ticket :: CartProduct where
  "ticket = \<lparr>id' = ''1'', productId = ''p1'', name = ''Film'', price = 10, image' = None,
     maxStock = Some 5\<rparr>"

text \<open>A browser whose session storage is disabled: every call of it throws.\<close>

definition blocked_world :: world where
  "blocked_world = fresh_world\<lparr>session_fault := (\<lambda>_. Some SecurityError)\<rparr>"

text \<open>The same browser with user \<^verbatim>\<open>A\<close> active in both collection services.\<close>

definition world_of_A :: world where
  "world_of_A = fresh_world\<lparr>cart_currentUserId := Some ''A'', fav_currentUserId := Some ''A''\<rparr>"

text \<open>The answer of the backend to a login of user \<^verbatim>\<open>A\<close>, with a token valid for one hour.\<close>

definition login_of_A :: AuthResponse where
  "login_of_A =
    \<lparr>user = \<lparr>user_id = ''A'', user_name = ''Ann'', email = ''ann@example.org'', avatar = None\<rparr>,
     token = ''t0k3n'', expiresIn = Some 3600\<rparr>"

lemma code_char_of [simp]: "code (char_of (n::nat)) = n mod 256"
  by (simp add: code_def)

lemma code_less [simp]: "code c < 256"
  by (simp add: code_def)

lemma code_eq_iff: "code c = code d \<longleftrightarrow> c = d"
  by (simp add: code_def)

lemma code_lit [simp]:
  "code (CHR ''-'') = 45" "code (CHR ''0'') = 48" "code (CHR '','') = 44"
  "code (CHR '']'') = 93" "code (CHR ''}'') = 125" "code (CHR ''['') = 91"
  "code (CHR ''{'') = 123" "code (CHR '':'') = 58" "code (CHR ''.'') = 46"
  "code (CHR ''e'') = 101" "code (CHR ''E'') = 69" "code (CHR ''t'') = 116"
  "code (CHR ''f'') = 102" "code (CHR ''n'') = 110" "code (CHR ''u'') = 117"
  "code (CHR ''b'') = 98" "code (CHR ''r'') = 114" "code (CHR 0x22) = 34" "code (CHR 0x5C) = 92"
  by (simp_all add: code_def)

lemma is_digit_digit_char [simp]: "d < 10 \<Longrightarrow> is_digit (digit_char d)"
  by (simp add: is_digit_def digit_char_def)

lemma digit_val_digit_char [simp]: "d < 10 \<Longrightarrow> digit_val (digit_char d) = d"
  by (simp add: digit_val_def digit_char_def)

lemma show_nat_digits: "c \<in> set (show_nat n) \<Longrightarrow> is_digit c"
  by (induction n arbitrary: c rule: show_nat.induct) (subst (asm) show_nat.simps, auto split: if_splits)

lemma show_nat_nonempty [simp]: "show_nat n \<noteq> []"
  by (subst show_nat.simps) simp

lemma read_nat_snoc: "read_nat (ds @ [c]) = 10 * read_nat ds + digit_val c"
  by (simp add: read_nat_def)

lemma read_show_nat [simp]: "read_nat (show_nat n) = n"
proof (induction n rule: show_nat.induct)
  case (1 n)
  show ?case
  proof (cases "n < 10")
    case True
    then show ?thesis by (subst show_nat.simps) (simp add: read_nat_def)
  next
    case False
    with 1 show ?thesis by (subst show_nat.simps) (simp add: read_nat_snoc)
  qed
qed

lemma hd_show_nat: "hd (show_nat n) = CHR ''0'' \<longleftrightarrow> n = 0"
proof (induction n rule: show_nat.induct)
  case (1 n)
  show ?case
  proof (cases "n < 10")
    case True
    then show ?thesis
      by (subst show_nat.simps) (auto simp: digit_char_def code_eq_iff [symmetric])
  next
    case False
    with 1 show ?thesis by (subst show_nat.simps) simp
  qed
qed


lemma delim_simps [simp]:
  "delim []" "delim (CHR '','' # r)" "delim (CHR '']'' # r)" "delim (CHR ''}'' # r)"
  by (simp_all add: delim_def)

lemma takeWhile_digits:
  assumes "\<forall>c\<in>set ds. is_digit c" "delim r"
  shows "takeWhile is_digit (ds @ r) = ds"
proof -
  have "takeWhile is_digit r = []"
    using assms(2) by (cases r) (auto simp: delim_def is_digit_def)
  with assms(1) show ?thesis by (simp add: takeWhile_append2)
qed

lemma not_frac_start_delim: "delim r \<Longrightarrow> \<not> frac_start r"
  by (cases r) (auto simp: delim_def frac_start_def)

lemma parse_unsigned_digits:
  assumes ds: "ds \<noteq> []" "\<forall>c\<in>set ds. is_digit c" "hd ds \<noteq> CHR ''0''" and r: "delim r"
  shows "parse_unsigned (ds @ r) = Some (read_nat ds, r)"
proof -
  have tw: "takeWhile is_digit (ds @ r) = ds" using ds(2) r by (rule takeWhile_digits)
  have "int_digits (ds @ r) = ds"
    unfolding int_digits_def tw using ds(1,3) by simp
  then show ?thesis
    using ds(1) not_frac_start_delim [OF r] by (simp add: parse_unsigned_def)
qed

lemma parse_unsigned_zero:
  assumes r: "delim r"
  shows "parse_unsigned (CHR ''0'' # r) = Some (0, r)"
  using not_frac_start_delim [OF r]
  by (simp add: parse_unsigned_def int_digits_def read_nat_def digit_val_def)

lemma parse_number_digits:
  assumes ds: "ds \<noteq> []" "\<forall>c\<in>set ds. is_digit c" "hd ds \<noteq> CHR ''0''" and r: "delim r"
  shows "parse_number (ds @ r) = Some (JNum (int (read_nat ds)), r)"
    and "parse_number (CHR ''-'' # ds @ r) = Some (JNum (- int (read_nat ds)), r)"
proof -
  have "is_digit (hd ds)" using ds(1,2) by simp
  then have nm: "hd ds \<noteq> CHR ''-''" by (auto simp: is_digit_def)
  show "parse_number (ds @ r) = Some (JNum (int (read_nat ds)), r)"
    using nm ds(1) parse_unsigned_digits [OF ds r] by (simp add: parse_number_def)
  show "parse_number (CHR ''-'' # ds @ r) = Some (JNum (- int (read_nat ds)), r)"
    using parse_unsigned_digits [OF ds r] by (simp add: parse_number_def)
qed

lemma parse_number_zero:
  assumes r: "delim r"
  shows "parse_number (''0'' @ r) = Some (JNum 0, r)"
  using parse_unsigned_zero [OF r] by (simp add: parse_number_def)

lemma parse_number_show_int:
  assumes "delim r"
  shows "parse_number (show_int i @ r) = Some (JNum i, r)"
proof -
  have dig: "\<forall>c\<in>set (show_nat n). is_digit c" for n using show_nat_digits by blast
  consider (neg) "i < 0" | (zero) "i = 0" | (pos) "0 < i" by linarith
  then show ?thesis
  proof cases
    case neg
    then have "hd (show_nat (nat (- i))) \<noteq> CHR ''0''" by (simp add: hd_show_nat)
    then show ?thesis
      using parse_number_digits(2) [OF show_nat_nonempty dig _ assms, of "nat (- i)"] neg
      by (simp add: show_int_def)
  next
    case zero
    have "show_nat 0 = ''0''"
      by (subst show_nat.simps) (simp add: digit_char_def code_eq_iff [symmetric])
    then show ?thesis using parse_number_zero [OF assms] zero by (simp add: show_int_def)
  next
    case pos
    then have "hd (show_nat (nat i)) \<noteq> CHR ''0''" by (simp add: hd_show_nat)
    then show ?thesis
      using parse_number_digits(1) [OF show_nat_nonempty dig _ assms, of "nat i"] pos
      by (simp add: show_int_def)
  qed
qed

lemma unhex_hex_lower: "d < 16 \<Longrightarrow> unhex (hex_lower d) = Some d"
  by (auto simp: unhex_def hex_lower_def Let_def)

lemma parse_string_escaped:
  "parse_string acc (concat (map escape_char s) @ CHR 0x22 # r) = Some (acc @ s, r)"
proof (induction s arbitrary: acc)
  case Nil
  show ?case by simp
next
  case (Cons c s)
  have c256: "code c < 256" by simp
  have cc: "c = char_of (code c)" by (simp add: code_def)
  consider (q) "code c = 34" | (b) "code c = 92" | (sh) "code c \<in> {8, 9, 10, 12, 13}"
    | (u) "code c < 32" "code c \<notin> {8, 9, 10, 12, 13}" | (p) "code c \<ge> 32" "code c \<noteq> 34" "code c \<noteq> 92"
    by fastforce
  then show ?case
  proof cases
    case q
    then have c: "c = CHR 0x22" by (simp add: code_eq_iff [symmetric])
    show ?thesis using Cons.IH [of "acc @ [c]"] unfolding c
      by (simp add: escape_char_def unescape_def)
  next
    case b
    then have c: "c = CHR 0x5C" by (simp add: code_eq_iff [symmetric])
    show ?thesis using Cons.IH [of "acc @ [c]"] unfolding c
      by (simp add: escape_char_def unescape_def)
  next
    case sh
    then consider "c = char_of (8::nat)" | "c = char_of (9::nat)" | "c = char_of (10::nat)"
      | "c = char_of (12::nat)" | "c = char_of (13::nat)"
      using cc by auto
    then show ?thesis
    proof cases
      case 1 show ?thesis using Cons.IH [of "acc @ [c]"] unfolding 1
        by (simp add: escape_char_def unescape_def)
    next
      case 2 show ?thesis using Cons.IH [of "acc @ [c]"] unfolding 2
        by (simp add: escape_char_def unescape_def)
    next
      case 3 show ?thesis using Cons.IH [of "acc @ [c]"] unfolding 3
        by (simp add: escape_char_def unescape_def)
    next
      case 4 show ?thesis using Cons.IH [of "acc @ [c]"] unfolding 4
        by (simp add: escape_char_def unescape_def)
    next
      case 5 show ?thesis using Cons.IH [of "acc @ [c]"] unfolding 5
        by (simp add: escape_char_def unescape_def)
    qed
  next
    case u
    have hx: "hex4 (CHR ''0'') (CHR ''0'') (hex_lower (code c div 16)) (hex_lower (code c mod 16)) = Some (code c)"
      using u(1) by (simp add: hex4_def unhex_hex_lower) (simp add: unhex_def)
    have "utf8 (code c) = [c]" using u(1) by (simp add: utf8_def) (simp add: code_def)
    with u hx show ?thesis using Cons.IH [of "acc @ [c]"]
      by (simp add: escape_char_def Let_def)
  next
    case p
    then show ?thesis using Cons.IH [of "acc @ [c]"]
      by (simp add: escape_char_def Let_def)
  qed
qed

lemma skip_ws_Cons: "\<not> is_ws c \<Longrightarrow> skip_ws (c # r) = c # r"
  by (simp add: skip_ws_def)

lemma update_fresh: "k \<notin> fst ` set al \<Longrightarrow> AList.update k v al = al @ [(k, v)]"
  by (induction al) auto

lemma quote_Cons: "quote s = CHR 0x22 # concat (map escape_char s) @ [CHR 0x22]"
  by (simp add: quote_def)

lemma show_int_starter: "\<exists>c t. show_int i = c # t \<and> (c = CHR ''-'' \<or> is_digit c)"
proof -
  obtain c t where ct: "show_nat (nat \<bar>i\<bar>) = c # t" by (cases "show_nat (nat \<bar>i\<bar>)") auto
  then have "is_digit c" using show_nat_digits [of c "nat \<bar>i\<bar>"] by simp
  with ct show ?thesis by (cases "i < 0") (auto simp: show_int_def abs_if)
qed

lemma stringify_starter: "\<exists>c t. JSON_stringify v = c # t \<and> starter c"
proof (cases v)
  case (JNum i)
  from show_int_starter [of i] obtain c t where "show_int i = c # t" "c = CHR ''-'' \<or> is_digit c"
    by blast
  then show ?thesis using JNum
    by (auto simp: starter_def is_ws_def is_digit_def)
qed (auto simp: starter_def is_ws_def quote_def)

lemma parse_value_number:
  assumes "c = CHR ''-'' \<or> is_digit c"
  shows "parse_value (Suc f) (c # r) = parse_number (c # r)"
proof -
  have "\<not> is_ws c" using assms by (auto simp: is_ws_def is_digit_def)
  then have "skip_ws (c # r) = c # r" by (rule skip_ws_Cons)
  moreover have "c \<noteq> CHR ''[''" "c \<noteq> CHR ''{''" "code c \<noteq> 34" "c \<noteq> CHR ''t''" "c \<noteq> CHR ''f''" "c \<noteq> CHR ''n''"
    using assms by (auto simp: is_digit_def)
  ultimately show ?thesis by simp
qed

lemma parse_elements_ok:
  assumes "xs \<noteq> []" "\<forall>x\<in>set xs. enough x" "sum_list (map (\<lambda>x. Suc (jsize x)) xs) \<le> f"
  shows "parse_elements f acc (commas (map JSON_stringify xs) @ CHR '']'' # r) = Some (JArr (acc @ xs), r)"
  using assms
proof (induction xs arbitrary: f acc)
  case Nil
  then show ?case by simp
next
  case (Cons x xs)
  from Cons.prems(3) obtain g where f: "f = Suc g" "jsize x \<le> g" "sum_list (map (\<lambda>x. Suc (jsize x)) xs) \<le> g"
    by (cases f) auto
  have ex: "enough x" using Cons.prems(2) by simp
  show ?case
  proof (cases xs)
    case Nil
    have "parse_value g (JSON_stringify x @ CHR '']'' # r) = Some (x, CHR '']'' # r)"
      using ex f(2) by (simp add: enough_def)
    then show ?thesis using Nil f(1) by (simp add: skip_ws_def is_ws_def)
  next
    case (Cons y ys)
    let ?R = "CHR '','' # commas (map JSON_stringify xs) @ CHR '']'' # r"
    have "parse_value g (JSON_stringify x @ ?R) = Some (x, ?R)"
      using ex f(2) by (simp add: enough_def)
    moreover have "parse_elements g (acc @ [x]) (commas (map JSON_stringify xs) @ CHR '']'' # r) = Some (JArr ((acc @ [x]) @ xs), r)"
      using Cons.IH [of g "acc @ [x]"] Cons Cons.prems(2) f(3) by simp
    ultimately show ?thesis using Cons f(1) by (simp add: skip_ws_def is_ws_def)
  qed
qed

lemma parse_members_key:
  "parse_members (Suc g) acc (member_text (k, v) @ R) =
    (case parse_value g (JSON_stringify v @ R) of
       None \<Rightarrow> None
     | Some (v', r3) \<Rightarrow>
         (case skip_ws r3 of
            [] \<Rightarrow> None
          | d # r4 \<Rightarrow>
              if d = CHR '','' then parse_members g (AList.update k v' acc) r4
              else if d = CHR ''}'' then Some (JObj (AList.update k v' acc), r4)
              else None))"
proof -
  have key: "parse_string [] (concat (map escape_char k) @ CHR 0x22 # t) = Some (k, t)" for t
    using parse_string_escaped [of "[]" k t] by simp
  show ?thesis
    by (simp add: member_text_def quote_def skip_ws_def is_ws_def key)
qed

lemma parse_members_ok:
  assumes "kvs \<noteq> []" "\<forall>kv\<in>set kvs. enough (snd kv)" "sum_list (map (\<lambda>kv. Suc (jsize (snd kv))) kvs) \<le> f"
    "distinct (map fst (acc @ kvs))"
  shows "parse_members f acc (commas (map member_text kvs) @ CHR ''}'' # r) = Some (JObj (acc @ kvs), r)"
  using assms
proof (induction kvs arbitrary: f acc)
  case Nil
  then show ?case by simp
next
  case (Cons kv kvs)
  obtain k v where kv: "kv = (k, v)" by (cases kv)
  from Cons.prems(3) obtain g where f: "f = Suc g" "jsize v \<le> g" "sum_list (map (\<lambda>kv. Suc (jsize (snd kv))) kvs) \<le> g"
    by (cases f) (auto simp: kv)
  have ex: "enough v" using Cons.prems(2) kv by simp
  have fresh: "k \<notin> fst ` set acc" using Cons.prems(4) kv by auto
  show ?case
  proof (cases kvs)
    case Nil
    have pv: "parse_value g (JSON_stringify v @ CHR ''}'' # r) = Some (v, CHR ''}'' # r)"
      using ex f(2) by (simp add: enough_def)
    have "parse_members (Suc g) acc (member_text (k, v) @ CHR ''}'' # r) = Some (JObj (acc @ [(k, v)]), r)"
      unfolding parse_members_key pv using fresh
      by (simp add: skip_ws_def is_ws_def update_fresh)
    then show ?thesis using Nil f(1) kv by simp
  next
    case (Cons y ys)
    let ?R = "CHR '','' # commas (map member_text kvs) @ CHR ''}'' # r"
    have pv: "parse_value g (JSON_stringify v @ ?R) = Some (v, ?R)"
      using ex f(2) by (simp add: enough_def)
    have ih: "parse_members g (acc @ [kv]) (commas (map member_text kvs) @ CHR ''}'' # r) = Some (JObj ((acc @ [kv]) @ kvs), r)"
      using Cons.IH [of g "acc @ [kv]"] Cons Cons.prems(2,4) f(3) by simp
    have "parse_members (Suc g) acc (member_text (k, v) @ ?R) = Some (JObj (acc @ (k, v) # kvs), r)"
      unfolding parse_members_key pv using fresh ih kv
      by (simp add: skip_ws_def is_ws_def update_fresh)
    moreover have "commas (map member_text (kv # kvs)) @ CHR ''}'' # r = member_text (k, v) @ ?R"
      using Cons kv by simp
    ultimately show ?thesis using f(1) kv by simp
  qed
qed

lemma stringify_obj: "JSON_stringify (JObj kvs) = CHR ''{'' # commas (map member_text kvs) @ ''}''"
proof -
  have "(\<lambda>(k, v). quote k @ CHR '':'' # JSON_stringify v) = member_text"
    by (auto simp: member_text_def fun_eq_iff)
  then show ?thesis by simp
qed

lemma commas_starter:
  assumes "ys \<noteq> []" "\<exists>c t. hd ys = c # t \<and> starter c"
  shows "\<exists>c t. commas ys @ r = c # t \<and> starter c"
  using assms by (cases ys rule: commas.cases) auto

lemma enough_all: "wf_json v \<Longrightarrow> enough v"
proof (induction v)
  case JNull
  show ?case unfolding enough_def
  proof (intro allI impI)
    fix f r assume "jsize JNull \<le> f"
    then obtain g where "f = Suc g" by (cases f) auto
    then show "parse_value f (JSON_stringify JNull @ r) = Some (JNull, r)"
      by (simp add: skip_ws_def is_ws_def literal_def)
  qed
next
  case (JBool b)
  show ?case unfolding enough_def
  proof (intro allI impI)
    fix f r assume "jsize (JBool b) \<le> f"
    then obtain g where "f = Suc g" by (cases f) auto
    then show "parse_value f (JSON_stringify (JBool b) @ r) = Some (JBool b, r)"
      by (simp add: skip_ws_def is_ws_def literal_def)
  qed
next
  case (JNum i)
  show ?case unfolding enough_def
  proof (intro allI impI)
    fix f r assume "jsize (JNum i) \<le> f" and r: "delim r"
    then obtain g where f: "f = Suc g" by (cases f) auto
    from show_int_starter [of i] obtain c t where ct: "show_int i = c # t" "c = CHR ''-'' \<or> is_digit c"
      by blast
    have "parse_value (Suc g) (c # t @ r) = parse_number (c # t @ r)"
      using ct(2) by (rule parse_value_number)
    then show "parse_value f (JSON_stringify (JNum i) @ r) = Some (JNum i, r)"
      using parse_number_show_int [OF r, of i] f ct(1) by simp
  qed
next
  case (JStr s)
  show ?case unfolding enough_def
  proof (intro allI impI)
    fix f r assume "jsize (JStr s) \<le> f"
    then obtain g where "f = Suc g" by (cases f) auto
    then show "parse_value f (JSON_stringify (JStr s) @ r) = Some (JStr s, r)"
      using parse_string_escaped [of "[]" s r]
      by (simp add: skip_ws_def is_ws_def quote_def)
  qed
next
  case (JArr xs)
  then have all: "\<forall>x\<in>set xs. enough x" by (auto simp: list_all_iff)
  show ?case unfolding enough_def
  proof (intro allI impI)
    fix f r assume "jsize (JArr xs) \<le> f"
    then obtain g where f: "f = Suc g" "sum_list (map (\<lambda>x. Suc (jsize x)) xs) \<le> g" by (cases f) auto
    show "parse_value f (JSON_stringify (JArr xs) @ r) = Some (JArr xs, r)"
    proof (cases "xs = []")
      case True
      then show ?thesis using f(1) by (simp add: skip_ws_def is_ws_def)
    next
      case False
      have "\<exists>c t. hd (map JSON_stringify xs) = c # t \<and> starter c"
        using False stringify_starter [of "hd xs"] by (simp add: hd_map)
      with False obtain c t where ct: "commas (map JSON_stringify xs) @ CHR '']'' # r = c # t" "starter c"
        using commas_starter [of "map JSON_stringify xs" "CHR '']'' # r"] by auto
      have "parse_elements g [] (commas (map JSON_stringify xs) @ CHR '']'' # r) = Some (JArr ([] @ xs), r)"
        using False all f(2) by (rule parse_elements_ok)
      then have pe: "parse_elements g [] (c # t) = Some (JArr xs, r)" using ct(1) by simp
      have sk: "skip_ws (c # t) = c # t" using ct(2) by (simp add: starter_def skip_ws_Cons)
      have "parse_value (Suc g) (CHR ''['' # c # t) = Some (JArr xs, r)"
        using pe sk ct(2) by (simp add: skip_ws_def is_ws_def starter_def)
      then show ?thesis using f(1) ct(1) by simp
    qed
  qed
next
  case (JObj kvs)
  then have all: "\<forall>kv\<in>set kvs. enough (snd kv)" and dist: "distinct (map fst kvs)"
    by (auto simp: list_all_iff snds.simps)
  show ?case unfolding enough_def
  proof (intro allI impI)
    fix f r assume "jsize (JObj kvs) \<le> f"
    then obtain g where f: "f = Suc g" "sum_list (map (\<lambda>kv. Suc (jsize (snd kv))) kvs) \<le> g" by (cases f) auto
    show "parse_value f (JSON_stringify (JObj kvs) @ r) = Some (JObj kvs, r)"
    proof (cases "kvs = []")
      case True
      then show ?thesis using f(1) by (simp add: skip_ws_def is_ws_def)
    next
      case False
      have "\<exists>c t. hd (map member_text kvs) = c # t \<and> starter c"
        using False by (simp add: hd_map member_text_def quote_def starter_def is_ws_def)
      with False obtain c t where ct: "commas (map member_text kvs) @ CHR ''}'' # r = c # t" "starter c"
        using commas_starter [of "map member_text kvs" "CHR ''}'' # r"] by auto
      have "parse_members g [] (commas (map member_text kvs) @ CHR ''}'' # r) = Some (JObj ([] @ kvs), r)"
        using False all f(2) dist by (intro parse_members_ok) auto
      then have pe: "parse_members g [] (c # t) = Some (JObj kvs, r)" using ct(1) by simp
      have sk: "skip_ws (c # t) = c # t" using ct(2) by (simp add: starter_def skip_ws_Cons)
      have "parse_value (Suc g) (CHR ''{'' # c # t) = Some (JObj kvs, r)"
        using pe sk ct(2) by (simp add: skip_ws_def is_ws_def starter_def)
      then show ?thesis using f(1) ct(1) by (simp add: stringify_obj del: JSON_stringify.simps)
    qed
  qed
qed

lemma commas_length: "sum_list (map (\<lambda>y. Suc (length y)) ys) \<le> Suc (length (commas ys))"
  by (induction ys rule: commas.induct) auto

lemma jsize_le_length: "jsize v \<le> length (JSON_stringify v)"
proof (induction v)
  case (JArr xs)
  have "sum_list (map (\<lambda>x. Suc (jsize x)) xs) \<le> sum_list (map (\<lambda>x. Suc (length (JSON_stringify x))) xs)"
    using JArr by (intro sum_list_mono) auto
  also have "\<dots> = sum_list (map (\<lambda>y. Suc (length y)) (map JSON_stringify xs))"
    by (simp add: comp_def)
  also have "\<dots> \<le> Suc (length (commas (map JSON_stringify xs)))" by (rule commas_length)
  finally show ?case by simp
next
  case (JObj kvs)
  have "jsize (snd kv) \<le> length (member_text kv)" if "kv \<in> set kvs" for kv
  proof -
    have "jsize (snd kv) \<le> length (JSON_stringify (snd kv))"
      using JObj [of kv "snd kv"] that by (cases kv) (simp add: snds.simps)
    then show ?thesis by (simp add: member_text_def)
  qed
  then have "sum_list (map (\<lambda>kv. Suc (jsize (snd kv))) kvs) \<le> sum_list (map (\<lambda>kv. Suc (length (member_text kv))) kvs)"
    by (intro sum_list_mono) auto
  also have "\<dots> = sum_list (map (\<lambda>y. Suc (length y)) (map member_text kvs))"
    by (simp add: comp_def)
  also have "\<dots> \<le> Suc (length (commas (map member_text kvs)))" by (rule commas_length)
  finally show ?case by (simp add: stringify_obj del: JSON_stringify.simps)
next
  case (JNum i)
  from show_int_starter [of i] show ?case by auto
qed (auto simp: quote_def)

theorem JSON_roundtrip: "wf_json v \<Longrightarrow> JSON_parse (JSON_stringify v) = Inr v"
proof -
  assume "wf_json v"
  then have "enough v" by (rule enough_all)
  moreover have "jsize v \<le> 2 * length (JSON_stringify v) + 1"
    using jsize_le_length [of v] by simp
  ultimately have "parse_value (2 * length (JSON_stringify v) + 1) (JSON_stringify v @ []) = Some (v, [])"
    unfolding enough_def by (metis delim_simps(1))
  then show ?thesis by (simp add: JSON_parse_def skip_ws_def)
qed

subsection \<open>The URI codec\<close>

lemma unhex_hex_upper: "d < 16 \<Longrightarrow> unhex (hex_upper d) = Some d"
  by (auto simp: unhex_def hex_upper_def Let_def)

lemma percent_reserved: "\<not> unreserved (CHR ''%'')"
  by (simp add: unreserved_def code_def)

lemma decode_encode_byte:
  "decodeURIComponent (encode_byte c @ r) =
    (case decodeURIComponent r of Inl e \<Rightarrow> Inl e | Inr t \<Rightarrow> Inr (c # t))"
proof (cases "unreserved c")
  case True
  then have "c \<noteq> CHR ''%''" using percent_reserved by auto
  with True show ?thesis by (simp add: encode_byte_def)
next
  case False
  have "code c div 16 < 16" using code_less [of c] by arith
  moreover have "16 * (code c div 16) + code c mod 16 = code c" by simp
  then have "char_of (16 * (code c div 16) + code c mod 16) = c" by (simp add: code_def)
  ultimately show ?thesis using False
    by (simp add: encode_byte_def unhex_hex_upper split: sum.splits)
qed

lemma decode_encode_append:
  "decodeURIComponent (encodeURIComponent s @ r) =
    (case decodeURIComponent r of Inl e \<Rightarrow> Inl e | Inr t \<Rightarrow> Inr (s @ t))"
proof (induction s)
  case Nil
  show ?case by (simp add: encodeURIComponent_def split: sum.splits)
next
  case (Cons c s)
  then show ?case
    using decode_encode_byte [of c "encodeURIComponent s @ r"]
    by (simp add: encodeURIComponent_def split: sum.splits)
qed

lemma decode_encode [simp]: "decodeURIComponent (encodeURIComponent s) = Inr s"
  using decode_encode_append [of s "[]"] by simp

lemma hex_upper_code: "d < 16 \<Longrightarrow> 48 \<le> code (hex_upper d) \<and> code (hex_upper d) \<le> 70"
  by (auto simp: hex_upper_def)

lemma encode_byte_chars:
  assumes "x \<in> set (encode_byte c)"
  shows "code x \<noteq> 59 \<and> code x \<noteq> 61 \<and> code x \<noteq> 32 \<and> code x \<noteq> 9"
proof (cases "unreserved c")
  case True
  with assms show ?thesis by (auto simp: encode_byte_def unreserved_def Let_def)
next
  case False
  have "code c div 16 < 16" "code c mod 16 < 16" using code_less [of c] by arith+
  then have "48 \<le> code (hex_upper (code c div 16))" "48 \<le> code (hex_upper (code c mod 16))"
    "code (hex_upper (code c div 16)) \<noteq> 59" "code (hex_upper (code c div 16)) \<noteq> 61"
    "code (hex_upper (code c mod 16)) \<noteq> 59" "code (hex_upper (code c mod 16)) \<noteq> 61"
    by (auto simp: hex_upper_def)
  moreover have "code (CHR ''%'') = 37" by (simp add: code_def)
  ultimately show ?thesis using assms False
    by (auto simp: encode_byte_def)
qed

lemma encode_chars:
  "x \<in> set (encodeURIComponent s) \<Longrightarrow> code x \<noteq> 59 \<and> code x \<noteq> 61 \<and> code x \<noteq> 32 \<and> code x \<noteq> 9"
  using encode_byte_chars by (auto simp: encodeURIComponent_def)

lemma encode_no_semicolon [simp]: "CHR '';'' \<notin> set (encodeURIComponent s)"
  using encode_chars [of "CHR '';''" s] by (auto simp: code_def)

lemma encode_no_equals [simp]: "CHR ''='' \<notin> set (encodeURIComponent s)"
  using encode_chars [of "CHR ''=''" s] by (auto simp: code_def)

lemma encode_no_blank: "x \<in> set (encodeURIComponent s) \<Longrightarrow> \<not> is_blank x"
  using encode_chars [of x s] by (auto simp: is_blank_def)

subsection \<open>Statements\<close>

lemma forEach_append:
  "forEach (xs @ ys) f s =
    (case forEach xs f s of Return _ s' \<Rightarrow> forEach ys f s' | Throw e s' \<Rightarrow> Throw e s')"
  by (induction xs arbitrary: s) (auto split: result.splits)

lemma statements_Nil [simp]: "statements [] s = Return () s"
  by (simp add: statements_def)

lemma statements_Cons [simp]:
  "statements (st # sts) s =
    (case st s of Return _ s' \<Rightarrow> statements sts s' | Throw e s' \<Rightarrow> Throw e s')"
  by (simp add: statements_def split: result.splits)

lemma assign_apply [simp]: "assign f s = Return () (f s)"
  by (simp add: assign_def)

subsection \<open>StorageService: what each operation returns\<close>

lemma setSessionItem_eq:
  "setSessionItem key v w =
    Return ()
      (case session_fault w (SetItem key (JSON_stringify v)) of
         None \<Rightarrow> w\<lparr>sessionStorage := (sessionStorage w)(key \<mapsto> JSON_stringify v)\<rparr>
       | Some e \<Rightarrow> console_error ''Error setting session item:'' e w)"
  by (simp add: setSessionItem_def try_catch_def sessionStorage_setItem_def split: option.splits)

lemma removeSessionItem_eq:
  "removeSessionItem key w =
    Return ()
      (case session_fault w (RemoveItem key) of
         None \<Rightarrow> w\<lparr>sessionStorage := (sessionStorage w)(key := None)\<rparr>
       | Some e \<Rightarrow> console_error ''Error removing session item:'' e w)"
  by (simp add: removeSessionItem_def try_catch_def sessionStorage_removeItem_def split: option.splits)

lemma clearSession_eq:
  "clearSession w =
    Return ()
      (case session_fault w Clear of
         None \<Rightarrow> w\<lparr>sessionStorage := Map.empty\<rparr>
       | Some e \<Rightarrow> console_error ''Error clearing session:'' e w)"
  by (simp add: clearSession_def try_catch_def sessionStorage_clear_def split: option.splits)

lemma getSessionItem_eq:
  "getSessionItem key w =
    (case session_fault w (GetItem key) of
       Some e \<Rightarrow> Return JNull (console_error ''Error getting session item:'' e w)
     | None \<Rightarrow>
         (case sessionStorage w key of
            None \<Rightarrow> Return JNull w
          | Some s \<Rightarrow>
              if s = [] then Return JNull w
              else (case JSON_parse s of
                      Inr j \<Rightarrow> Return j w
                    | Inl e \<Rightarrow> Return JNull (console_error ''Error getting session item:'' e w))))"
  by (simp add: getSessionItem_def try_catch_def and_then_def sessionStorage_getItem_def lift_def
      split: option.splits sum.splits)

lemma setCookie_eq:
  "setCookie nm v days w =
    Return ()
      (case cookie_fault w (CookieWrite (cookie_pair nm v)) of
         None \<Rightarrow> w\<lparr>cookie_jar := store_cookie (clock w) (cookie_pair nm v)
                     (clock w + days * 24 * 60 * 60 * 1000) (cookie_jar w)\<rparr>
       | Some e \<Rightarrow> console_error ''Error setting cookie:'' e w)"
  by (simp add: setCookie_def try_catch_def document_cookie_set_def cookie_pair_def Let_def
      split: option.splits)

lemma deleteCookie_eq:
  "deleteCookie nm w =
    Return ()
      (case cookie_fault w (CookieWrite (nm @ ''='')) of
         None \<Rightarrow> w\<lparr>cookie_jar := store_cookie (clock w) (nm @ ''='') 1000 (cookie_jar w)\<rparr>
       | Some e \<Rightarrow> console_error ''Error deleting cookie:'' e w)"
  by (simp add: deleteCookie_def try_catch_def document_cookie_set_def split: option.splits)

lemma cookie_scan_cases:
  "(\<exists>j. cookie_scan n ca w = Return j w) \<or> (\<exists>e. cookie_scan n ca w = Throw e w)"
  by (induction ca) (auto simp: Let_def split: sum.splits)

lemma getCookie_cases:
  "(\<exists>j. getCookie nm w = Return j w)
    \<or> (\<exists>e. getCookie nm w = Return JNull (console_error ''Error getting cookie:'' e w))"
proof (cases "cookie_fault w CookieRead")
  case (Some e)
  then have "getCookie nm w = Return JNull (console_error ''Error getting cookie:'' e w)"
    by (simp add: getCookie_def try_catch_def and_then_def document_cookie_get_def)
  then show ?thesis by blast
next
  case None
  from cookie_scan_cases [of "nm @ ''=''" "split_on (CHR '';'') (cookie_string w)" w]
  show ?thesis using None
    by (auto simp: getCookie_def try_catch_def and_then_def document_cookie_get_def)
qed

subsection \<open>Reading and writing the cookie store\<close>

lemma split_on_nonempty [simp]: "split_on d s \<noteq> []"
  by (induction s) (auto split: list.splits)

lemma split_on_none: "d \<notin> set s \<Longrightarrow> split_on d s = [s]"
  by (induction s) auto

lemma split_on_append: "d \<notin> set a \<Longrightarrow> split_on d (a @ d # b) = a # split_on d b"
  by (induction a) auto

lemma split_join:
  assumes "\<forall>t\<in>set ts. CHR '';'' \<notin> set t"
  shows "split_on (CHR '';'') (join_with ''; '' ts) =
    (case ts of [] \<Rightarrow> [[]] | t # ts' \<Rightarrow> t # map ((#) (CHR '' '')) ts')"
  using assms
proof (induction "''; ''" ts rule: join_with.induct)
  case 1
  show ?case by simp
next
  case (2 x)
  then show ?case by (simp add: split_on_none)
next
  case (3 x y ys)
  then have "split_on (CHR '';'') (join_with ''; '' (y # ys)) = y # map ((#) (CHR '' '')) ys"
    by simp
  moreover have "split_on (CHR '';'') (x @ CHR '';'' # CHR '' '' # join_with ''; '' (y # ys))
      = x # split_on (CHR '';'') (CHR '' '' # join_with ''; '' (y # ys))"
    using 3(2) by (intro split_on_append) simp
  ultimately show ?case by simp
qed

lemma starts_with_Nil2 [simp]: "starts_with p [] = (p = [])"
  by (cases p) auto

lemma starts_with_name:
  assumes "e \<notin> set nm" "e \<notin> set n"
  shows "starts_with (nm @ [e]) (n @ e # v) = (n = nm)"
  using assms
proof (induction nm arbitrary: n)
  case Nil
  then show ?case by (cases n) auto
next
  case (Cons a nm)
  then show ?case by (cases n) auto
qed

lemma entry_text_no_semicolon: "cookie_ok c \<Longrightarrow> CHR '';'' \<notin> set (entry_text c)"
  by (simp add: cookie_ok_def entry_text_def)

lemma entry_text_strip:
  assumes "cookie_ok c"
  shows "dropWhile (\<lambda>x. x = CHR '' '') (entry_text c) = entry_text c"
    and "dropWhile (\<lambda>x. x = CHR '' '') (CHR '' '' # entry_text c) = entry_text c"
proof -
  obtain a t where "fst c = a # t" "a \<noteq> CHR '' ''"
    using assms by (cases "fst c") (auto simp: cookie_ok_def)
  then show "dropWhile (\<lambda>x. x = CHR '' '') (entry_text c) = entry_text c"
    and "dropWhile (\<lambda>x. x = CHR '' '') (CHR '' '' # entry_text c) = entry_text c"
    by (simp_all add: entry_text_def)
qed

lemma cookie_scan_jar:
  assumes "jar_ok jar" "CHR ''='' \<notin> set nm"
    "map (dropWhile (\<lambda>x. x = CHR '' '')) xs = map entry_text jar"
  shows "cookie_scan (nm @ ''='') xs w =
    (case map_of jar nm of None \<Rightarrow> Return JNull w | Some ve \<Rightarrow> cookie_value (fst ve) w)"
  using assms
proof (induction jar arbitrary: xs)
  case Nil
  then show ?case by simp
next
  case (Cons c jar)
  from Cons.prems(3) obtain x xs' where xs: "xs = x # xs'"
    and x: "dropWhile (\<lambda>x. x = CHR '' '') x = entry_text c"
    and xs': "map (dropWhile (\<lambda>x. x = CHR '' '')) xs' = map entry_text jar"
    by (cases xs) auto
  obtain n v e where c: "c = (n, v, e)" by (cases c)
  have ok: "cookie_ok c" "jar_ok jar" using Cons.prems(1) by (simp_all add: jar_ok_def)
  then have n: "CHR ''='' \<notin> set n" by (simp add: cookie_ok_def c)
  have sw: "starts_with (nm @ ''='') (n @ CHR ''='' # v) = (n = nm)"
    using Cons.prems(2) n by (rule starts_with_name)
  show ?case
  proof (cases "n = nm")
    case True
    then show ?thesis using sw x c xs
      by (simp add: entry_text_def cookie_value_def split: sum.splits)
  next
    case False
    then show ?thesis using sw x c xs Cons.IH [OF ok(2) Cons.prems(2) xs']
      by (simp add: entry_text_def)
  qed
qed

lemma jar_ok_live: "jar_ok jar \<Longrightarrow> jar_ok (live now jar)"
  by (simp add: jar_ok_def live_def list_all_iff)

lemma cookie_scan_document:
  assumes "jar_ok jar" "CHR ''='' \<notin> set nm"
  shows "cookie_scan (nm @ ''='') (split_on (CHR '';'') (join_with ''; '' (map entry_text jar))) w =
    (case map_of jar nm of None \<Rightarrow> Return JNull w | Some ve \<Rightarrow> cookie_value (fst ve) w)"
proof (cases jar)
  case Nil
  then show ?thesis by simp
next
  case (Cons c cs)
  have "\<forall>t\<in>set (map entry_text jar). CHR '';'' \<notin> set t"
    using assms(1) entry_text_no_semicolon by (auto simp: jar_ok_def list_all_iff)
  then have sp: "split_on (CHR '';'') (join_with ''; '' (map entry_text jar)) =
      entry_text c # map ((#) (CHR '' '')) (map entry_text cs)"
    using Cons by (simp add: split_join)
  have "map (dropWhile (\<lambda>x. x = CHR '' '')) (entry_text c # map ((#) (CHR '' '')) (map entry_text cs))
      = map entry_text jar"
    using assms(1) Cons entry_text_strip by (auto simp: jar_ok_def list_all_iff)
  then have "cookie_scan (nm @ ''='') (entry_text c # map ((#) (CHR '' '')) (map entry_text cs)) w =
      (case map_of jar nm of None \<Rightarrow> Return JNull w | Some ve \<Rightarrow> cookie_value (fst ve) w)"
    by (rule cookie_scan_jar [OF assms])
  then show ?thesis by (simp only: sp)
qed

lemma getCookie_lookup:
  assumes "cookie_fault w CookieRead = None" "jar_ok (cookie_jar w)" "CHR ''='' \<notin> set nm"
  shows "getCookie nm w =
    (case map_of (live (clock w) (cookie_jar w)) nm of
       None \<Rightarrow> Return JNull w
     | Some ve \<Rightarrow>
         (case cookie_value (fst ve) w of
            Throw e w' \<Rightarrow> Return JNull (console_error ''Error getting cookie:'' e w')
          | Return j w' \<Rightarrow> Return j w'))"
  using assms(1) cookie_scan_document [OF jar_ok_live [OF assms(2)] assms(3), of "clock w" w]
  by (simp add: getCookie_def try_catch_def and_then_def document_cookie_get_def cookie_string_def
      split: option.splits)

lemma dropWhile_none: "(\<forall>x\<in>set s. \<not> P x) \<Longrightarrow> dropWhile P s = s"
  by (cases s) auto

lemma trim_ends:
  assumes "s \<noteq> []" "\<not> is_blank (hd s)" "\<not> is_blank (last s)"
  shows "trim s = s"
proof -
  have "dropWhile is_blank s = s" using assms(1,2) by (cases s) auto
  moreover have "dropWhile is_blank (rev s) = rev s"
    using assms(1,3) by (cases "rev s") (auto simp: last_rev [symmetric] simp del: last_rev)
  ultimately show ?thesis by (simp add: trim_def)
qed

lemma trim_no_blank: "(\<forall>x\<in>set s. \<not> is_blank x) \<Longrightarrow> trim s = s"
  by (simp add: trim_def dropWhile_none)

lemma store_cookie_named:
  assumes "cookie_name_ok nm" "CHR '';'' \<notin> set v" "trim v = v"
  shows "store_cookie now (nm @ CHR ''='' # v) expires jar =
    (if expires \<le> now then AList.delete nm jar else AList.update nm (v, expires) jar)"
proof -
  have nm: "nm \<noteq> []" "CHR '';'' \<notin> set nm" "CHR ''='' \<notin> set nm" "trim nm = nm"
    using assms(1) trim_ends [of nm] by (auto simp: cookie_name_ok_def)
  have 1: "takeWhile (\<lambda>c. c \<noteq> CHR '';'') (nm @ CHR ''='' # v) = nm @ CHR ''='' # v"
    using nm(2) assms(2) by (intro takeWhile_eq_all_conv [THEN iffD2]) auto
  have 2: "takeWhile (\<lambda>c. c \<noteq> CHR ''='') (nm @ CHR ''='' # v) = nm"
    using nm(3) by (subst takeWhile_append2) auto
  show ?thesis
    unfolding store_cookie_def 1 2 Let_def using nm assms(3) by simp
qed

lemma set_trim: "set (trim s) \<subseteq> set s"
proof -
  have "set (dropWhile is_blank (rev (dropWhile is_blank s))) \<subseteq> set (rev (dropWhile is_blank s))"
    by (rule set_dropWhileD [THEN subsetI])
  also have "\<dots> \<subseteq> set s" using set_dropWhileD [of _ is_blank s] by auto
  finally show ?thesis by (simp add: trim_def)
qed

lemma hd_trim:
  assumes "trim s \<noteq> []"
  shows "\<not> is_blank (hd (trim s))"
proof -
  let ?y = "dropWhile is_blank s"
  have y: "?y = trim s @ rev (takeWhile is_blank (rev ?y))"
  proof -
    have h: "rev (dropWhile is_blank (rev ?y)) @ rev (takeWhile is_blank (rev ?y)) = ?y"
      using arg_cong [OF takeWhile_dropWhile_id [of is_blank "rev ?y"], of rev]
      by (simp only: rev_append rev_rev_ident)
    show ?thesis unfolding trim_def using h by (rule sym)
  qed
  have "?y \<noteq> []"
  proof
    assume a: "?y = []"
    have "trim s = rev (dropWhile is_blank (rev ?y))" by (simp add: trim_def)
    also have "\<dots> = []" unfolding a by simp
    finally show False using assms by simp
  qed
  then have "\<not> is_blank (hd ?y)" by (rule hd_dropWhile)
  moreover have "hd ?y = hd (trim s)" using y assms by (metis hd_append2)
  ultimately show ?thesis by simp
qed

lemma jar_ok_update: "jar_ok jar \<Longrightarrow> cookie_ok (n, v, e) \<Longrightarrow> jar_ok (AList.update n (v, e) jar)"
  by (induction jar) (auto simp: jar_ok_def cookie_ok_def)

lemma jar_ok_delete: "jar_ok jar \<Longrightarrow> jar_ok (AList.delete n jar)"
  by (induction jar) (auto simp: jar_ok_def)

lemma jar_ok_store: "jar_ok jar \<Longrightarrow> jar_ok (store_cookie now pair expires jar)"
proof -
  assume jar: "jar_ok jar"
  let ?nv = "takeWhile (\<lambda>c. c \<noteq> CHR '';'') pair"
  let ?n = "trim (takeWhile (\<lambda>c. c \<noteq> CHR ''='') ?nv)"
  let ?v = "trim (drop (Suc (length (takeWhile (\<lambda>c. c \<noteq> CHR ''='') ?nv))) ?nv)"
  have nv: "CHR '';'' \<notin> set ?nv" using set_takeWhileD [of "CHR '';''" _ pair] by auto
  have "set ?n \<subseteq> set (takeWhile (\<lambda>c. c \<noteq> CHR ''='') ?nv)" by (rule set_trim)
  then have n1: "CHR ''='' \<notin> set ?n" "CHR '';'' \<notin> set ?n"
    using set_takeWhileD [of _ "\<lambda>c. c \<noteq> CHR ''=''" ?nv] nv by auto
  have "set ?v \<subseteq> set ?nv" using set_trim in_set_dropD by fastforce
  then have v: "CHR '';'' \<notin> set ?v" using nv by auto
  have n2: "hd ?n \<noteq> CHR '' ''" if "?n \<noteq> []"
    using hd_trim [OF that] by (auto simp: is_blank_def code_def)
  have "cookie_ok (?n, ?v, expires)" if "?n \<noteq> []"
    using n1 n2 v that by (simp add: cookie_ok_def)
  then show ?thesis
    using jar by (auto simp: store_cookie_def Let_def intro: jar_ok_update jar_ok_delete)
qed

lemma map_of_live_update:
  "now < e \<Longrightarrow> map_of (live now (AList.update n (v, e) jar)) n = Some (v, e)"
  by (induction jar) (auto simp: live_def)

lemma map_of_live_update_other:
  "n' \<noteq> n \<Longrightarrow> map_of (live now (AList.update n ve jar)) n' = map_of (live now jar) n'"
  by (induction jar) (auto simp: live_def)

lemma map_of_live_delete_other:
  "n' \<noteq> n \<Longrightarrow> map_of (live now (AList.delete n jar)) n' = map_of (live now jar) n'"
  by (induction jar) (auto simp: live_def)

lemma map_of_live_delete: "map_of (live now (AList.delete n jar)) n = None"
  by (induction jar) (auto simp: live_def)

subsection \<open>What the storage operations leave alone\<close>

lemma storage_only_refl [simp]: "storage_only w w"
  by (simp add: storage_only_def)

lemma storage_only_trans:
  assumes "storage_only w w'" "storage_only w' w''"
  shows "storage_only w w''"
proof -
  have 1: "w' = w\<lparr>sessionStorage := sessionStorage w', cookie_jar := cookie_jar w', console := console w'\<rparr>"
    using assms(1) by (simp add: storage_only_def)
  have "w'\<lparr>sessionStorage := a, cookie_jar := b, console := c\<rparr>
      = w\<lparr>sessionStorage := a, cookie_jar := b, console := c\<rparr>" for a b c
    by (subst 1) simp
  then show ?thesis using assms(2) by (simp add: storage_only_def)
qed

lemma storage_only_fields:
  assumes "storage_only w w'"
  shows "session_fault w' = session_fault w" "cookie_fault w' = cookie_fault w" "clock w' = clock w"
    "route w' = route w" "currentUser w' = currentUser w" "isAuthenticated w' = isAuthenticated w"
    "cartItems w' = cartItems w" "cart_currentUserId w' = cart_currentUserId w"
    "favoriteItems w' = favoriteItems w" "fav_currentUserId w' = fav_currentUserId w"
proof -
  let ?u = "w\<lparr>sessionStorage := sessionStorage w', cookie_jar := cookie_jar w', console := console w'\<rparr>"
  have e: "w' = ?u" using assms by (simp add: storage_only_def)
  have "session_fault w' = session_fault ?u" using e by (rule arg_cong)
  then show "session_fault w' = session_fault w" by simp
  have "cookie_fault w' = cookie_fault ?u" using e by (rule arg_cong)
  then show "cookie_fault w' = cookie_fault w" by simp
  have "clock w' = clock ?u" using e by (rule arg_cong)
  then show "clock w' = clock w" by simp
  have "route w' = route ?u" using e by (rule arg_cong)
  then show "route w' = route w" by simp
  have "currentUser w' = currentUser ?u" using e by (rule arg_cong)
  then show "currentUser w' = currentUser w" by simp
  have "isAuthenticated w' = isAuthenticated ?u" using e by (rule arg_cong)
  then show "isAuthenticated w' = isAuthenticated w" by simp
  have "cartItems w' = cartItems ?u" using e by (rule arg_cong)
  then show "cartItems w' = cartItems w" by simp
  have "cart_currentUserId w' = cart_currentUserId ?u" using e by (rule arg_cong)
  then show "cart_currentUserId w' = cart_currentUserId w" by simp
  have "favoriteItems w' = favoriteItems ?u" using e by (rule arg_cong)
  then show "favoriteItems w' = favoriteItems w" by simp
  have "fav_currentUserId w' = fav_currentUserId ?u" using e by (rule arg_cong)
  then show "fav_currentUserId w' = fav_currentUserId w" by simp
qed

lemma storage_only_console_error [simp]: "storage_only w (console_error msg e w)"
  by (simp add: storage_only_def console_error_def)

lemma storage_only_setSessionItem: "storage_only w (state_of (setSessionItem key v w))"
  by (simp add: setSessionItem_eq storage_only_def console_error_def split: option.splits)

lemma storage_only_removeSessionItem: "storage_only w (state_of (removeSessionItem key w))"
  by (simp add: removeSessionItem_eq storage_only_def console_error_def split: option.splits)

lemma storage_only_setCookie: "storage_only w (state_of (setCookie nm v days w))"
  by (simp add: setCookie_eq storage_only_def console_error_def split: option.splits)

lemma storage_only_deleteCookie: "storage_only w (state_of (deleteCookie nm w))"
  by (simp add: deleteCookie_eq storage_only_def console_error_def split: option.splits)

lemma storage_only_getSessionItem: "storage_only w (state_of (getSessionItem key w))"
  by (simp add: getSessionItem_eq split: option.splits sum.splits)

lemma storage_only_getCookie: "storage_only w (state_of (getCookie nm w))"
  using getCookie_cases [of nm w] by auto

lemma getSessionItem_returns: "\<exists>j. getSessionItem key w = Return j (state_of (getSessionItem key w))"
  by (simp add: getSessionItem_eq split: option.splits sum.splits)

lemma getCookie_returns: "\<exists>j. getCookie nm w = Return j (state_of (getCookie nm w))"
  using getCookie_cases [of nm w] by auto

subsection \<open>Writing a collection through\<close>

lemma saveCartToStorage_eq:
  "saveCartToStorage w =
    Return ()
      (if has_user (cart_currentUserId w)
       then state_of (setCookie (cart_getStorageKey w) (json_of_cart (cartItems w)) 30
              (state_of (setSessionItem (cart_getStorageKey w) (json_of_cart (cartItems w)) w)))
       else w)"
  by (simp add: saveCartToStorage_def try_catch_def and_then_def setSessionItem_eq setCookie_eq)

lemma storage_only_saveCartToStorage: "storage_only w (state_of (saveCartToStorage w))"
  using storage_only_trans [OF storage_only_setSessionItem storage_only_setCookie]
  by (simp add: saveCartToStorage_eq)

lemma saveFavoritesToStorage_eq:
  "saveFavoritesToStorage w =
    Return ()
      (if has_user (fav_currentUserId w)
       then state_of (setCookie (fav_getStorageKey w) (json_of_favorites (favoriteItems w)) 30
              (state_of (setSessionItem (fav_getStorageKey w) (json_of_favorites (favoriteItems w)) w)))
       else w)"
  by (simp add: saveFavoritesToStorage_def try_catch_def and_then_def setSessionItem_eq setCookie_eq)

lemma storage_only_saveFavoritesToStorage: "storage_only w (state_of (saveFavoritesToStorage w))"
  using storage_only_trans [OF storage_only_setSessionItem storage_only_setCookie]
  by (simp add: saveFavoritesToStorage_eq)

lemma saveCartToStorage_cartItems [simp]:
  "cartItems (state_of (saveCartToStorage w)) = cartItems w"
  using storage_only_fields(7) [OF storage_only_saveCartToStorage] .

lemma saveFavoritesToStorage_favoriteItems [simp]:
  "favoriteItems (state_of (saveFavoritesToStorage w)) = favoriteItems w"
  using storage_only_fields(9) [OF storage_only_saveFavoritesToStorage] .

lemma saveCartToStorage_Return: "saveCartToStorage w = Return () (state_of (saveCartToStorage w))"
  by (simp add: saveCartToStorage_eq)

lemma saveFavoritesToStorage_Return:
  "saveFavoritesToStorage w = Return () (state_of (saveFavoritesToStorage w))"
  by (simp add: saveFavoritesToStorage_eq)

subsection \<open>Callbacks under \<^verbatim>\<open>try\<close>\<close>

lemma forEach_caught:
  assumes "\<And>x s. body x s = Return () (step s x)"
  shows "forEach xs body s = Return () (foldl step s xs)"
  by (induction xs arbitrary: s) (simp_all add: assms)

lemma try_catch_settled:
  "try_catch m (\<lambda>e w. Return () (console_error msg e w)) w = Return () (settled msg (m w))"
  by (cases "m w") (simp_all add: try_catch_def settled_def)

lemma notifyLogin_eq:
  "notifyLogin onLoginCallbacks userId w =
     Return ()
       (foldl (login_call userId)
          (console_log (''notifyLogin: Notifying '' @ show_nat (length onLoginCallbacks)
             @ '' callbacks'') w)
          (enumerate 0 onLoginCallbacks))"
proof -
  have "(case ic of (index, callback) \<Rightarrow>
          try_catch
            (and_then (assign (console_log (''Calling login callback # '' @ show_nat (index + 1))))
               (\<lambda>_. callback userId))
            (\<lambda>e w. Return () (console_error ''Error in login callback:'' e w))) s
      = Return () (login_call userId s ic)" for ic s
    by (cases ic) (simp add: try_catch_settled and_then_def login_call_def)
  then have "forEach (enumerate 0 onLoginCallbacks)
        (\<lambda>(index, callback).
           try_catch
             (and_then (assign (console_log (''Calling login callback # '' @ show_nat (index + 1))))
                (\<lambda>_. callback userId))
             (\<lambda>e w. Return () (console_error ''Error in login callback:'' e w))) s
      = Return () (foldl (login_call userId) s (enumerate 0 onLoginCallbacks))" for s
    by (rule forEach_caught)
  then show ?thesis by (simp add: notifyLogin_def and_then_def)
qed

lemma notifyLogout_eq:
  "notifyLogout onLogoutCallbacks w = Return () (foldl logout_call w onLogoutCallbacks)"
proof -
  have "try_catch callback (\<lambda>e w. Return () (console_error ''Error in logout callback:'' e w)) s
      = Return () (logout_call s callback)" for callback s
    by (simp add: try_catch_settled logout_call_def)
  then show ?thesis unfolding notifyLogout_def by (rule forEach_caught)
qed

subsection \<open>Writing a value to both tiers and reading it back\<close>

lemma no_faults_None [simp]:
  "no_faults w \<Longrightarrow> session_fault w op = None" "no_faults w \<Longrightarrow> cookie_fault w cop = None"
  by (simp_all add: no_faults_def)

lemma stringify_nonempty [simp]: "JSON_stringify v \<noteq> []"
  using stringify_starter [of v] by auto

lemma cookie_text_trim:
  "trim (encodeURIComponent s) = encodeURIComponent s" "CHR '';'' \<notin> set (encodeURIComponent s)"
  using encode_no_blank [of _ s] by (simp_all add: trim_no_blank)

lemma store_cookie_pair:
  assumes "cookie_name_ok nm"
  shows "store_cookie now (cookie_pair nm v) expires jar =
    (if expires \<le> now then AList.delete nm jar
     else AList.update nm
            (encodeURIComponent (case v of JStr s \<Rightarrow> s | _ \<Rightarrow> JSON_stringify v), expires) jar)"
  unfolding cookie_pair_def
  by (rule store_cookie_named [OF assms cookie_text_trim(2) cookie_text_trim(1)])

lemma store_cookie_delete:
  assumes "cookie_name_ok nm"
  shows "store_cookie now (nm @ ''='') 1000 jar =
    (if 1000 \<le> now then AList.delete nm jar else AList.update nm ([], 1000) jar)"
  using store_cookie_named [OF assms, of "[]" now 1000 jar] by (simp add: trim_def)

lemma cookie_value_encoded:
  "cookie_value (encodeURIComponent s) w =
    (case JSON_parse s of Inr j \<Rightarrow> Return j w | Inl _ \<Rightarrow> Return (JStr s) w)"
  by (simp add: cookie_value_def)

lemma getSessionItem_stored:
  assumes "session_fault w (GetItem key) = None" "sessionStorage w key = Some (JSON_stringify v)"
    "wf_json v"
  shows "getSessionItem key w = Return v w"
  using assms by (simp add: getSessionItem_eq JSON_roundtrip)

lemma getCookie_stored:
  assumes "cookie_fault w CookieRead = None" "jar_ok (cookie_jar w)" "CHR ''='' \<notin> set nm"
    "map_of (live (clock w) (cookie_jar w)) nm = Some (encodeURIComponent s, e)"
  shows "getCookie nm w = (case JSON_parse s of Inr j \<Rightarrow> Return j w | Inl _ \<Rightarrow> Return (JStr s) w)"
  using getCookie_lookup [OF assms(1-3)] assms(4)
  by (simp add: cookie_value_encoded split: sum.splits)

text \<open>What the fallback to the cookie gives back for a value written by \<^verbatim>\<open>setCookie\<close>.\<close>

lemma cookie_round_trip:
  assumes "no_faults w" "jar_ok (cookie_jar w)" "cookie_name_ok key" "0 < days"
  shows "value_of (getCookie key (state_of (clearSession
           (state_of (setCookie key v days (state_of (setSessionItem key v w)))))))
    = Some (case JSON_parse (case v of JStr s \<Rightarrow> s | _ \<Rightarrow> JSON_stringify v) of
              Inr j \<Rightarrow> j
            | Inl _ \<Rightarrow> JStr (case v of JStr s \<Rightarrow> s | _ \<Rightarrow> JSON_stringify v))"
proof -
  let ?text = "case v of JStr s \<Rightarrow> s | _ \<Rightarrow> JSON_stringify v"
  let ?exp = "clock w + days * 24 * 60 * 60 * 1000"
  let ?jar = "AList.update key (encodeURIComponent ?text, ?exp) (cookie_jar w)"
  let ?w3 = "w\<lparr>sessionStorage := Map.empty, cookie_jar := ?jar\<rparr>"
  have lt: "clock w < ?exp" using assms(4) by simp
  have w3: "state_of (clearSession (state_of (setCookie key v days (state_of (setSessionItem key v w)))))
      = ?w3"
    using assms(1) lt
    by (simp add: setSessionItem_eq setCookie_eq clearSession_eq store_cookie_pair [OF assms(3)])
  have ok: "cookie_ok (key, encodeURIComponent ?text, ?exp)"
    using assms(3) by (auto simp: cookie_ok_def cookie_name_ok_def is_blank_def code_def)
  have "getCookie key ?w3 =
      (case JSON_parse ?text of Inr j \<Rightarrow> Return j ?w3 | Inl _ \<Rightarrow> Return (JStr ?text) ?w3)"
  proof (rule getCookie_stored)
    show "cookie_fault ?w3 CookieRead = None" using assms(1) by simp
    show "jar_ok (cookie_jar ?w3)" using jar_ok_update [OF assms(2) ok] by simp
    show "CHR ''='' \<notin> set key" using assms(3) by (simp add: cookie_name_ok_def)
    show "map_of (live (clock ?w3) (cookie_jar ?w3)) key = Some (encodeURIComponent ?text, ?exp)"
      using lt by (simp add: map_of_live_update)
  qed
  then show ?thesis unfolding w3 by (simp split: sum.splits)
qed

subsection \<open>The stored form of a cart\<close>

lemma those_map_Some: "(\<And>x. x \<in> set xs \<Longrightarrow> f x = Some (g x)) \<Longrightarrow> those (map f xs) = Some (map g xs)"
  by (induction xs) simp_all

lemma CartItem_of_json_of [simp]: "CartItem_of_json (json_of_CartItem it) = Some it"
  by (cases "image' it"; cases "maxStock it")
     (simp_all add: CartItem_of_json_def json_of_CartItem_def product_fields_def)

lemma cart_of_json_of [simp]: "cart_of_json (json_of_cart items) = items"
  using those_map_Some [of items "\<lambda>x. CartItem_of_json (json_of_CartItem x)" "\<lambda>x. x"]
  by (simp add: cart_of_json_def json_of_cart_def comp_def)

lemma wf_json_of_CartItem [simp]: "wf_json (json_of_CartItem it)"
  by (cases "image' it"; cases "maxStock it")
     (simp_all add: json_of_CartItem_def product_fields_def)

lemma wf_json_of_cart [simp]: "wf_json (json_of_cart items)"
  by (simp add: json_of_cart_def list_all_iff)

lemma truthy_json_of_cart [simp]: "truthy (json_of_cart items)"
  by (simp add: json_of_cart_def)

subsection \<open>Saving, logging out and logging in again\<close>

lemma addToCart_cartItems:
  "cartItems (state_of (addToCart p q w)) =
    (let i = findIndex (\<lambda>item. productId item = productId p) (cartItems w)
     in if i > - 1 then
          (if over_stock (maxStock p) (quantity (cartItems w ! nat i) + q)
              \<or> quantity (cartItems w ! nat i) + q > MAX_QUANTITY_PER_ITEM
           then cartItems w
           else (cartItems w)[nat i := (cartItems w ! nat i)\<lparr>quantity := quantity (cartItems w ! nat i) + q\<rparr>])
        else if over_stock (maxStock p) q \<or> q > MAX_QUANTITY_PER_ITEM then cartItems w
        else cartItems w @ [with_quantity p q])"
  by (simp add: addToCart_def Let_def console_warn_def)

lemma cart_key: "cart_currentUserId w = Some A \<Longrightarrow> A \<noteq> [] \<Longrightarrow> cart_getStorageKey w = CART_STORAGE_PREFIX @ A"
  by (simp add: cart_getStorageKey_def)

lemma addToCart_changed:
  assumes "cartItems (state_of (addToCart p q w)) \<noteq> cartItems w"
  shows "addToCart p q w = saveCartToStorage (w\<lparr>cartItems := cartItems (state_of (addToCart p q w))\<rparr>)"
  using assms by (auto simp: addToCart_def Let_def console_warn_def)

lemma saveCartToStorage_stored:
  assumes "no_faults w" "cart_currentUserId w = Some A" "A \<noteq> []"
    "cookie_name_ok (CART_STORAGE_PREFIX @ A)"
  shows "saveCartToStorage w = Return ()
    (w\<lparr>sessionStorage := (sessionStorage w)
          (CART_STORAGE_PREFIX @ A \<mapsto> JSON_stringify (json_of_cart (cartItems w))),
       cookie_jar := AList.update (CART_STORAGE_PREFIX @ A)
          (encodeURIComponent (JSON_stringify (json_of_cart (cartItems w))),
           clock w + 30 * 24 * 60 * 60 * 1000) (cookie_jar w)\<rparr>)"
  using assms(1-3)
  by (simp add: saveCartToStorage_eq cart_key setSessionItem_eq setCookie_eq
      store_cookie_pair [OF assms(4)] json_of_cart_def)

lemma logout_eq:
  assumes "no_faults w"
  shows "logout registered_logout_callbacks w = Return ()
    (w\<lparr>currentUser := None, isAuthenticated := False, cartItems := [], cart_currentUserId := None,
       favoriteItems := [], fav_currentUserId := None,
       sessionStorage := (sessionStorage w)(STORAGE_KEY := None, TOKEN_KEY := None,
          TOKEN_EXPIRY_KEY := None),
       cookie_jar := store_cookie (clock w) ''auth_token_expiry='' 1000
          (store_cookie (clock w) ''auth_token='' 1000
             (store_cookie (clock w) ''auth_user='' 1000 (cookie_jar w))),
       route := ''/''\<rparr>)"
  using assms
  by (simp add: logout_def registered_logout_callbacks_def onLogout_def notifyLogout_eq
      logout_call_def settled_def clearCartOnLogout_def clearFavoritesOnLogout_def
      removeSessionItem_eq deleteCookie_eq)

lemma loadCartForUser_restores:
  assumes "session_fault w (GetItem (CART_STORAGE_PREFIX @ A)) = None" "A \<noteq> []"
    "sessionStorage w (CART_STORAGE_PREFIX @ A) = Some (JSON_stringify (json_of_cart items))"
  shows "loadCartForUser A w = Return () (w\<lparr>cart_currentUserId := Some A, cartItems := items\<rparr>)"
proof -
  let ?W = "w\<lparr>cart_currentUserId := Some A\<rparr>"
  have "getSessionItem (CART_STORAGE_PREFIX @ A) ?W = Return (json_of_cart items) ?W"
    using assms by (intro getSessionItem_stored) simp_all
  then show ?thesis using assms(2)
    by (simp add: loadCartForUser_def loadCartFromStorage_def cart_getStorageKey_def try_catch_def
        and_then_def)
qed

lemma getSessionItem_returns_storage_only:
  "\<exists>j w'. getSessionItem key w = Return j w' \<and> storage_only w w'"
  using getSessionItem_returns [of key w] storage_only_getSessionItem [of w key] by metis

lemma getCookie_returns_storage_only:
  "\<exists>j w'. getCookie nm w = Return j w' \<and> storage_only w w'"
  using getCookie_returns [of nm w] storage_only_getCookie [of w nm] by metis

lemma loadFavoritesForUser_frame:
  "\<exists>w'. loadFavoritesForUser A w = Return () w' \<and> cartItems w' = cartItems w
     \<and> cart_currentUserId w' = cart_currentUserId w"
proof -
  let ?W = "w\<lparr>fav_currentUserId := Some A\<rparr>"
  let ?k = "fav_getStorageKey ?W"
  obtain j W1 where j: "getSessionItem ?k ?W = Return j W1" "storage_only ?W W1"
    using getSessionItem_returns_storage_only by blast
  obtain c W2 where c: "getCookie ?k W1 = Return c W2" "storage_only W1 W2"
    using getCookie_returns_storage_only by blast
  have 1: "cartItems W1 = cartItems w" "cart_currentUserId W1 = cart_currentUserId w"
    using storage_only_fields(7,8) [OF j(2)] by simp_all
  have 2: "cartItems W2 = cartItems w" "cart_currentUserId W2 = cart_currentUserId w"
    using storage_only_fields(7,8) [OF c(2)] 1 by simp_all
  show ?thesis
    using j(1) c(1) 1 2
    by (simp add: loadFavoritesForUser_def loadFavoritesFromStorage_def try_catch_def and_then_def)
qed

lemma statements_keep:
  assumes "\<forall>st\<in>set sts. \<forall>w. no_faults w \<longrightarrow>
      (\<exists>s. st w = Return () s \<and> no_faults s \<and> sessionStorage s K = sessionStorage w K)"
    and "no_faults w"
  shows "\<exists>s. statements sts w = Return () s \<and> no_faults s \<and> sessionStorage s K = sessionStorage w K"
  using assms
proof (induction sts arbitrary: w)
  case Nil
  then show ?case by simp
next
  case (Cons st sts)
  from Cons.prems obtain s1 where s1: "st w = Return () s1" "no_faults s1"
    "sessionStorage s1 K = sessionStorage w K"
    by (metis list.set_intros(1))
  have "\<exists>s. statements sts s1 = Return () s \<and> no_faults s \<and> sessionStorage s K = sessionStorage s1 K"
    using Cons.prems(1) s1(2) by (intro Cons.IH) simp_all
  then show ?case using s1 by auto
qed

lemma no_faults_update [simp]:
  "no_faults (w\<lparr>console := c\<rparr>) = no_faults w"
  "no_faults (w\<lparr>sessionStorage := ss\<rparr>) = no_faults w"
  "no_faults (w\<lparr>cookie_jar := jar\<rparr>) = no_faults w"
  "no_faults (w\<lparr>currentUser := u\<rparr>) = no_faults w"
  "no_faults (w\<lparr>isAuthenticated := b\<rparr>) = no_faults w"
  "no_faults (w\<lparr>cartItems := items\<rparr>) = no_faults w"
  by (simp_all add: no_faults_def del: no_faults_None)

lemma handleAuthSuccess_restores:
  assumes "no_faults w" "user_id (user res) = A" "A \<noteq> []"
    "sessionStorage w (CART_STORAGE_PREFIX @ A) = Some (JSON_stringify (json_of_cart items))"
    "\<bar>clock w + (case expiresIn res of None \<Rightarrow> DEFAULT_TOKEN_EXPIRY
         | Some n \<Rightarrow> if n = 0 then DEFAULT_TOKEN_EXPIRY else n) * 1000\<bar> \<le> 8640000000000000"
  shows "\<exists>w'. handleAuthSuccess registered_login_callbacks res w = Return () w'
    \<and> cartItems w' = items \<and> cart_currentUserId w' = Some A"
proof -
  let ?K = "CART_STORAGE_PREFIX @ A"
  let ?exp = "clock w + (case expiresIn res of None \<Rightarrow> DEFAULT_TOKEN_EXPIRY
         | Some n \<Rightarrow> if n = 0 then DEFAULT_TOKEN_EXPIRY else n) * 1000"
  let ?sts = "[assign (console_log ''handleAuthSuccess called''),
           assign (\<lambda>w. w\<lparr>currentUser := Some (user res), isAuthenticated := True\<rparr>),
           assign (console_log ''Storing token''),
           and_then (toISOString ?exp) (\<lambda>_. assign (console_log ''Token expiry'')),
           setSessionItem STORAGE_KEY (JStr (JSON_stringify (json_of_User (user res)))),
           setSessionItem TOKEN_KEY (JStr (token res)),
           setSessionItem TOKEN_EXPIRY_KEY (JStr (show_int ?exp)),
           setCookie ''auth_user'' (json_of_User (user res)) 30,
           setCookie ''auth_token'' (JStr (token res)) 30,
           setCookie ''auth_token_expiry'' (JStr (show_int ?exp)) 30,
           and_then (sessionStorage_getItem ''auth_token'')
             (\<lambda>_. assign (console_log ''Checking stored token in sessionStorage'')),
           assign (console_log ''Calling notifyLogin'')]"
  have split: "handleAuthSuccess registered_login_callbacks res w =
      (case statements ?sts w of
         Return _ s \<Rightarrow> notifyLogin registered_login_callbacks A s
       | Throw e s \<Rightarrow> Throw e s)"
    unfolding handleAuthSuccess_def Let_def statements_def
    using forEach_append [of ?sts "[notifyLogin registered_login_callbacks (user_id (user res))]" "\<lambda>st. st" w]
    by (simp add: assms(2) split: result.splits)
  have keys: "?K \<noteq> STORAGE_KEY" "?K \<noteq> TOKEN_KEY" "?K \<noteq> TOKEN_EXPIRY_KEY"
    by (simp_all add: CART_STORAGE_PREFIX_def STORAGE_KEY_def TOKEN_KEY_def TOKEN_EXPIRY_KEY_def)
  have "\<forall>st\<in>set ?sts. \<forall>w. no_faults w \<longrightarrow>
      (\<exists>s. st w = Return () s \<and> no_faults s \<and> sessionStorage s ?K = sessionStorage w ?K)"
    using assms(5) keys
    by (simp add: and_then_def toISOString_def setSessionItem_eq setCookie_eq
        sessionStorage_getItem_def console_log_def)
  then have "\<exists>s. statements ?sts w = Return () s \<and> no_faults s
      \<and> sessionStorage s ?K = sessionStorage w ?K"
    using assms(1) by (rule statements_keep)
  then obtain s where s: "statements ?sts w = Return () s" "no_faults s"
    "sessionStorage s ?K = Some (JSON_stringify (json_of_cart items))"
    using assms(4) by auto
  let ?s0 = "console_log (''notifyLogin: Notifying '' @ show_nat (length registered_login_callbacks)
             @ '' callbacks'') s"
  let ?s1 = "console_log (''Calling login callback # '' @ show_nat (0 + 1)) ?s0"
  have l1: "loadCartForUser A ?s1 = Return () (?s1\<lparr>cart_currentUserId := Some A, cartItems := items\<rparr>)"
    using s(2,3) assms(3) by (intro loadCartForUser_restores) (simp_all add: console_log_def)
  let ?s2 = "console_log (''Calling login callback # '' @ show_nat (1 + 1))
      (?s1\<lparr>cart_currentUserId := Some A, cartItems := items\<rparr>)"
  obtain s3 where s3: "loadFavoritesForUser A ?s2 = Return () s3" "cartItems s3 = cartItems ?s2"
    "cart_currentUserId s3 = cart_currentUserId ?s2"
    using loadFavoritesForUser_frame [of A ?s2] by blast
  have en: "enumerate 0 [loadCartForUser, loadFavoritesForUser]
      = [(0, loadCartForUser), (1, loadFavoritesForUser)]"
    by simp
  have "notifyLogin registered_login_callbacks A s = Return () s3"
    unfolding notifyLogin_eq registered_login_callbacks_def onLogin_def
    using l1 s3(1)
    by (simp add: login_call_def settled_def registered_login_callbacks_def onLogin_def)
  moreover have "cartItems s3 = items" "cart_currentUserId s3 = Some A"
    using s3(2,3) by (simp_all add: console_log_def)
  ultimately show ?thesis using split s(1) by simp
qed

section \<open>Cart: merge on login\<close>

lemma findIndex_range: "- 1 \<le> findIndex P xs"
  by (induction xs) (auto simp: Let_def)

lemma findIndex_none: "(findIndex P xs = - 1) = (\<forall>x\<in>set xs. \<not> P x)"
proof (induction xs)
  case Nil
  show ?case by simp
next
  case (Cons a xs)
  show ?case using Cons findIndex_range [of P xs] by (auto simp: Let_def)
qed

lemma findIndex_found: "\<exists>x\<in>set xs. P x \<Longrightarrow> 0 \<le> findIndex P xs"
  using findIndex_none [of P xs] findIndex_range [of P xs] by force

lemma findIndex_less: "nat (findIndex P xs) < length xs \<or> findIndex P xs = - 1"
  by (induction xs) (auto simp: Let_def nat_add_distrib)

lemma findIndex_append:
  "\<exists>x\<in>set xs. P x \<Longrightarrow> findIndex P (xs @ ys) = findIndex P xs"
proof (induction xs)
  case Nil
  then show ?case by simp
next
  case (Cons a xs)
  show ?case
  proof (cases "P a")
    case True
    then show ?thesis by simp
  next
    case False
    then have "\<exists>x\<in>set xs. P x" using Cons.prems by auto
    then show ?thesis using Cons.IH False by simp
  qed
qed

lemma update_findIndex:
  assumes "distinct (map key xs)" "k \<in> key ` set xs"
  shows "xs[nat (findIndex (\<lambda>x. key x = k) xs) := f (xs ! nat (findIndex (\<lambda>x. key x = k) xs))]
    = map (\<lambda>x. if key x = k then f x else x) xs"
  using assms
proof (induction xs)
  case Nil
  then show ?case by simp
next
  case (Cons a xs)
  show ?case
  proof (cases "key a = k")
    case True
    have "key a \<notin> key ` set xs" using Cons.prems(1) by simp
    then have "\<forall>x\<in>set xs. key x \<noteq> k" unfolding True [symmetric] by (metis imageI)
    then have "map (\<lambda>x. if key x = k then f x else x) xs = xs" by (simp add: map_idI)
    then show ?thesis using True by simp
  next
    case False
    then have in_xs: "k \<in> key ` set xs" using Cons.prems(2) by auto
    then have "\<exists>x\<in>set xs. key x = k" by auto
    then have ge: "0 \<le> findIndex (\<lambda>x. key x = k) xs" by (rule findIndex_found)
    then have n: "nat (findIndex (\<lambda>x. key x = k) xs + 1) = Suc (nat (findIndex (\<lambda>x. key x = k) xs))"
      by simp
    have d: "distinct (map key xs)" using Cons.prems(1) by simp
    show ?thesis using False ge Cons.IH [OF d in_xs] by (simp add: Let_def n)
  qed
qed

lemma find_snoc:
  "find P (xs @ [y]) = (case find P xs of Some x \<Rightarrow> Some x | None \<Rightarrow> if P y then Some y else None)"
  by (induction xs) auto

lemma find_none: "(find P xs = None) = (\<forall>x\<in>set xs. \<not> P x)"
  by (induction xs) auto

lemma merged_line_productId [simp]: "productId (merged_line localCart s) = productId s"
  by (simp add: merged_line_def split: option.splits)

lemma mergedCart_snoc: "mergedCart server (ys @ [y]) = merge_item (mergedCart server ys) y"
  by (simp add: mergedCart_def)

lemma mergedCart_shape:
  assumes "distinct (map productId serverCart)" "distinct (map productId localCart)"
  shows "mergedCart serverCart localCart =
    map (merged_line localCart) serverCart
    @ filter (\<lambda>l. productId l \<notin> productId ` set serverCart) localCart"
  using assms(2)
proof (induction localCart rule: rev_induct)
  case Nil
  show ?case by (simp add: mergedCart_def merged_line_def)
next
  case (snoc y ys)
  let ?A = "map (merged_line ys) serverCart"
  let ?B = "filter (\<lambda>l. productId l \<notin> productId ` set serverCart) ys"
  let ?P = "\<lambda>item. productId item = productId y"
  let ?f = "\<lambda>x. x\<lparr>quantity := min (quantity x + quantity y)
      (min (stock_or (maxStock y) MAX_QUANTITY_PER_ITEM) MAX_QUANTITY_PER_ITEM)\<rparr>"
  have dys: "distinct (map productId ys)" and fresh: "productId y \<notin> productId ` set ys"
    using snoc.prems by simp_all
  have ih: "mergedCart serverCart ys = ?A @ ?B" using snoc.IH dys by simp
  have "\<forall>x\<in>set ys. productId x \<noteq> productId y" using fresh by (metis imageI)
  then have nofind: "find (\<lambda>l. productId l = productId y) ys = None"
    by (simp add: find_none)
  show ?case
  proof (cases "productId y \<in> productId ` set serverCart")
    case True
    then have exA: "\<exists>x\<in>set ?A. ?P x" by auto
    have idx: "findIndex ?P (?A @ ?B) = findIndex ?P ?A" using exA by (rule findIndex_append)
    have ge: "0 \<le> findIndex ?P ?A" using exA by (rule findIndex_found)
    then have lt: "nat (findIndex ?P ?A) < length ?A" using findIndex_less [of ?P ?A] by auto
    have dA: "distinct (map productId ?A)" using assms(1) by (simp add: comp_def)
    have kA: "productId y \<in> productId ` set ?A" using True by (auto simp: image_iff)
    have updA: "?A[nat (findIndex ?P ?A) := ?f (?A ! nat (findIndex ?P ?A))]
        = map (\<lambda>x. if productId x = productId y then ?f x else x) ?A"
      using update_findIndex [OF dA kA, of ?f] .
    have lines: "(if productId (merged_line ys s) = productId y then ?f (merged_line ys s)
          else merged_line ys s) = merged_line (ys @ [y]) s" for s
    proof (cases "productId s = productId y")
      case True
      then have "find (\<lambda>l. productId l = productId s) ys = None" using nofind by simp
      then show ?thesis using True by (simp add: merged_line_def find_snoc)
    next
      case False
      then show ?thesis by (auto simp: merged_line_def find_snoc split: option.splits)
    qed
    have "merge_item (?A @ ?B) y = ?A[nat (findIndex ?P ?A) := ?f (?A ! nat (findIndex ?P ?A))] @ ?B"
      using ge lt by (simp add: merge_item_def idx Let_def list_update_append nth_append)
    also have "\<dots> = map (merged_line (ys @ [y])) serverCart @ ?B"
    proof -
      have "(\<lambda>x. if productId x = productId y then ?f x else x) \<circ> merged_line ys
          = merged_line (ys @ [y])"
        by (rule ext) (simp only: o_apply lines)
      then have "map (\<lambda>x. if productId x = productId y then ?f x else x) ?A
          = map (merged_line (ys @ [y])) serverCart"
        by (simp only: map_map)
      then show ?thesis by (simp only: updA)
    qed
    finally show ?thesis using True by (simp add: mergedCart_snoc ih)
  next
    case False
    have "\<forall>x\<in>set (?A @ ?B). \<not> ?P x" using False fresh by (auto simp: image_iff)
    then have "findIndex ?P (?A @ ?B) = - 1" by (simp only: findIndex_none)
    then have m: "merge_item (?A @ ?B) y = ?A @ ?B @ [y]" by (simp add: merge_item_def)
    have "merged_line (ys @ [y]) s = merged_line ys s" if "s \<in> set serverCart" for s
    proof -
      have "productId y \<noteq> productId s" using that False by (metis imageI)
      then show ?thesis by (auto simp: merged_line_def find_snoc split: option.splits)
    qed
    then have "map (merged_line (ys @ [y])) serverCart = ?A" by simp
    then show ?thesis using False m by (simp add: mergedCart_snoc ih)
  qed
qed

text \<open>
  C1, as amended. When neither cart repeats a product id, \<^verbatim>\<open>mergeCartOnLogin\<close> keeps the
  server's lines in their order, gives each line whose product is also in the local cart the
  sum of the two quantities cut at \<^verbatim>\<open>min(localItem.maxStock || 99, 99)\<close>, and appends the
  local lines of the other products. The stock limit of the server's line is not consulted.
\<close>

theorem mergeCartOnLogin_merged:
  assumes "distinct (map productId serverCart)" and "distinct (map productId (cartItems w))"
  shows "cartItems (state_of (mergeCartOnLogin serverCart w)) =
    map (merged_line (cartItems w)) serverCart
    @ filter (\<lambda>l. productId l \<notin> productId ` set serverCart) (cartItems w)"
  using mergedCart_shape [OF assms] by (simp add: mergeCartOnLogin_def)

theorem mergeCartOnLogin_merged_witness:
  "cartItems (state_of (mergeCartOnLogin [with_quantity ticket 2]
      (fresh_world\<lparr>cartItems := [with_quantity ticket 4]\<rparr>))) =
    map (merged_line (cartItems (fresh_world\<lparr>cartItems := [with_quantity ticket 4]\<rparr>)))
      [with_quantity ticket 2]
    @ filter (\<lambda>l. productId l \<notin> productId ` set [with_quantity ticket 2])
        (cartItems (fresh_world\<lparr>cartItems := [with_quantity ticket 4]\<rparr>))"
  by (rule mergeCartOnLogin_merged) (simp_all add: fresh_world_def)

text \<open>
  C1, as stated, fails: with the server's cart \<^verbatim>\<open>{p1: qty=2, maxStock=5}\<close> and the local cart
  \<^verbatim>\<open>{p1: qty=4}\<close> without a stock limit, the merged quantity is 6.
\<close>

theorem mergeCartOnLogin_not_clamped_by_server_stock:
  "map quantity (cartItems (state_of (mergeCartOnLogin [with_quantity ticket 2]
      (fresh_world\<lparr>cartItems := [with_quantity (ticket\<lparr>maxStock := None\<rparr>) 4]\<rparr>)))) = [6]
   \<and> map quantity (cartItems (state_of (mergeCartOnLogin [with_quantity ticket 2]
      (fresh_world\<lparr>cartItems := [with_quantity (ticket\<lparr>maxStock := None\<rparr>) 4]\<rparr>)))) \<noteq> [5]"
  by (simp add: mergeCartOnLogin_def mergedCart_def merge_item_def with_quantity_def ticket_def
      fresh_world_def MAX_QUANTITY_PER_ITEM_def)

section \<open>Cart: the quantity of a line\<close>

lemma removeFromCart_cartItems:
  "cartItems (state_of (removeFromCart pid w)) = filter (\<lambda>item. productId item \<noteq> pid) (cartItems w)"
  by (simp add: removeFromCart_def)

lemma updateQuantity_cartItems:
  "cartItems (state_of (updateQuantity pid q w)) =
    (if q \<le> 0 then filter (\<lambda>item. productId item \<noteq> pid) (cartItems w)
     else if q > MAX_QUANTITY_PER_ITEM then cartItems w
     else (let i = findIndex (\<lambda>item. productId item = pid) (cartItems w)
           in if i > - 1 \<and> \<not> over_stock (maxStock (cartItems w ! nat i)) q
              then (cartItems w)[nat i := (cartItems w ! nat i)\<lparr>quantity := q\<rparr>]
              else cartItems w))"
  by (simp add: updateQuantity_def removeFromCart_cartItems Let_def console_warn_def)

lemma cart_operations_return:
  "addToCart p q w = Return () (state_of (addToCart p q w))"
  "removeFromCart pid w = Return () (state_of (removeFromCart pid w))"
  "updateQuantity pid q w = Return () (state_of (updateQuantity pid q w))"
  "incrementQuantity pid w = Return () (state_of (incrementQuantity pid w))"
  "decrementQuantity pid w = Return () (state_of (decrementQuantity pid w))"
proof -
  show a: "addToCart p q w = Return () (state_of (addToCart p q w))"
    by (simp add: addToCart_def Let_def saveCartToStorage_eq)
  show r: "removeFromCart pid w = Return () (state_of (removeFromCart pid w))" for pid w
    by (simp add: removeFromCart_def saveCartToStorage_eq)
  show u: "updateQuantity pid q w = Return () (state_of (updateQuantity pid q w))" for pid q w
    using r [of pid w] by (simp add: updateQuantity_def Let_def saveCartToStorage_eq)
  show "incrementQuantity pid w = Return () (state_of (incrementQuantity pid w))"
    using u by (simp add: incrementQuantity_def split: option.splits)
  show "decrementQuantity pid w = Return () (state_of (decrementQuantity pid w))"
    using u by (simp add: decrementQuantity_def split: option.splits)
qed

lemma cart_step_Return: "cart_step op w = Return () (state_of (cart_step op w))"
  by (cases op) (simp_all add: cart_operations_return [symmetric])

lemma cart_run_Nil: "cart_run [] w = Return () w"
  by (simp add: cart_run_def)

lemma cart_run_Cons:
  "cart_run (op # ops) w = cart_run ops (state_of (cart_step op w))"
proof (cases "cart_step op w")
  case (Return u s)
  then show ?thesis by (simp add: cart_run_def)
next
  case (Throw e s)
  then show ?thesis using cart_step_Return [of op w] by simp
qed

text \<open>What does hold of every program of cart mutations: no line exceeds 99.\<close>

lemma cart_step_at_most_99:
  assumes "\<forall>item\<in>set (cartItems w). quantity item \<le> MAX_QUANTITY_PER_ITEM"
  shows "\<forall>item\<in>set (cartItems (state_of (cart_step op w))). quantity item \<le> MAX_QUANTITY_PER_ITEM"
proof -
  have upd: "\<forall>item\<in>set (xs[i := x]). quantity item \<le> MAX_QUANTITY_PER_ITEM"
    if "\<forall>item\<in>set xs. quantity item \<le> MAX_QUANTITY_PER_ITEM" "quantity x \<le> MAX_QUANTITY_PER_ITEM"
    for xs :: "CartItem list" and i x
    using that set_update_subset_insert [of xs i x] by auto
  have u: "\<forall>item\<in>set (cartItems (state_of (updateQuantity pid q w))). quantity item \<le> MAX_QUANTITY_PER_ITEM"
    for pid q
  proof (cases "q \<le> 0 \<or> q > MAX_QUANTITY_PER_ITEM")
    case True
    then show ?thesis using assms by (auto simp: updateQuantity_cartItems)
  next
    case False
    let ?i = "findIndex (\<lambda>item. productId item = pid) (cartItems w)"
    have "\<forall>item\<in>set ((cartItems w)[nat ?i := (cartItems w ! nat ?i)\<lparr>quantity := q\<rparr>]).
        quantity item \<le> MAX_QUANTITY_PER_ITEM"
      by (rule upd [OF assms]) (use False in simp)
    then show ?thesis using False assms by (simp add: updateQuantity_cartItems Let_def)
  qed
  show ?thesis
  proof (cases op)
    case (AddToCart p q)
    let ?i = "findIndex (\<lambda>item. productId item = productId p) (cartItems w)"
    let ?n = "quantity (cartItems w ! nat ?i) + q"
    let ?w' = "state_of (addToCart p q w)"
    have "cartItems ?w' = cartItems w
        \<or> (\<not> ?n > MAX_QUANTITY_PER_ITEM
            \<and> cartItems ?w' = (cartItems w)[nat ?i := (cartItems w ! nat ?i)\<lparr>quantity := ?n\<rparr>])
        \<or> (\<not> q > MAX_QUANTITY_PER_ITEM \<and> cartItems ?w' = cartItems w @ [with_quantity p q])"
      by (simp add: addToCart_cartItems Let_def)
    then consider (same) "cartItems ?w' = cartItems w"
      | (more) "\<not> ?n > MAX_QUANTITY_PER_ITEM"
          "cartItems ?w' = (cartItems w)[nat ?i := (cartItems w ! nat ?i)\<lparr>quantity := ?n\<rparr>]"
      | (new) "\<not> q > MAX_QUANTITY_PER_ITEM" "cartItems ?w' = cartItems w @ [with_quantity p q]"
      by blast
    then have "\<forall>item\<in>set (cartItems ?w'). quantity item \<le> MAX_QUANTITY_PER_ITEM"
    proof cases
      case same
      then show ?thesis using assms by simp
    next
      case more
      have "\<forall>item\<in>set ((cartItems w)[nat ?i := (cartItems w ! nat ?i)\<lparr>quantity := ?n\<rparr>]).
          quantity item \<le> MAX_QUANTITY_PER_ITEM"
        by (rule upd [OF assms]) (use more(1) in simp)
      then show ?thesis by (simp only: more(2))
    next
      case new
      then show ?thesis using assms by (simp add: with_quantity_def)
    qed
    then show ?thesis using AddToCart by simp
  next
    case (UpdateQuantity pid q)
    then show ?thesis using u by simp
  next
    case (IncrementQuantity pid)
    then show ?thesis using u assms by (simp add: incrementQuantity_def split: option.splits)
  next
    case (DecrementQuantity pid)
    then show ?thesis using u assms by (simp add: decrementQuantity_def split: option.splits)
  next
    case (RemoveFromCart pid)
    then show ?thesis using assms by (simp add: removeFromCart_cartItems)
  qed
qed

lemma cart_run_at_most_99:
  assumes "\<forall>item\<in>set (cartItems w). quantity item \<le> MAX_QUANTITY_PER_ITEM"
  shows "\<forall>item\<in>set (cartItems (state_of (cart_run ops w))). quantity item \<le> MAX_QUANTITY_PER_ITEM"
  using assms
proof (induction ops arbitrary: w)
  case Nil
  then show ?case by (simp add: cart_run_def)
next
  case (Cons op ops)
  show ?case unfolding cart_run_Cons
    by (rule Cons.IH) (rule cart_step_at_most_99 [OF Cons.prems])
qed

text \<open>
  C2 fails on the code. \<^verbatim>\<open>addToCart\<close> checks the upper limits only: on the empty cart,
  \<^verbatim>\<open>addToCart(ticket, -5)\<close> makes a line of quantity -5, where \<^verbatim>\<open>updateQuantity\<close> would
  have removed the line. And on a line that is present it checks the stock limit of the
  product passed in, not the one stored with the line (as \<^verbatim>\<open>updateQuantity\<close> does): adding
  5 of a product of stock 5 and then 5 more without a stock limit leaves quantity 10 on a line
  whose \<^verbatim>\<open>maxStock\<close> is 5.
\<close>

theorem addToCart_negative_quantity:
  "map quantity (cartItems (state_of (cart_run [AddToCart ticket (- 5)] fresh_world))) = [- 5]
   \<and> map (\<lambda>item. (quantity item, maxStock item))
        (cartItems (state_of (cart_run [AddToCart ticket 5, AddToCart (ticket\<lparr>maxStock := None\<rparr>) 5]
           fresh_world))) = [(10, Some 5)]"
  by (simp add: cart_run_Cons cart_run_Nil addToCart_cartItems with_quantity_def ticket_def
      fresh_world_def MAX_QUANTITY_PER_ITEM_def)

section \<open>The two tiers: write, then read\<close>




section \<open>StorageService: which operations can raise\<close>

lemma forEach_deleteCookie: "\<not> throws (forEach names deleteCookie w)"
  by (induction names arbitrary: w) (simp_all add: deleteCookie_eq)

text \<open>Every operation but \<^verbatim>\<open>hasSessionItem\<close> returns, whatever the tier primitives do.\<close>

lemma StorageService_guarded_operations_return:
  "\<not> throws (setSessionItem key v w)" "\<not> throws (getSessionItem key w)"
  "\<not> throws (removeSessionItem key w)" "\<not> throws (clearSession w)"
  "\<not> throws (setCookie nm v days w)" "\<not> throws (getCookie nm w)"
  "\<not> throws (deleteCookie nm w)" "\<not> throws (hasCookie nm w)"
  "\<not> throws (clearAll names w)"
proof -
  show "\<not> throws (setSessionItem key v w)" by (simp add: setSessionItem_eq)
  show "\<not> throws (getSessionItem key w)"
    by (simp add: getSessionItem_eq split: option.splits sum.splits)
  show "\<not> throws (removeSessionItem key w)" by (simp add: removeSessionItem_eq)
  show "\<not> throws (clearSession w)" by (simp add: clearSession_eq)
  show "\<not> throws (setCookie nm v days w)" by (simp add: setCookie_eq)
  show "\<not> throws (getCookie nm w)" using getCookie_cases [of nm w] by auto
  show "\<not> throws (deleteCookie nm w)" by (simp add: deleteCookie_eq)
  show "\<not> throws (hasCookie nm w)"
    using getCookie_cases [of nm w] by (auto simp: hasCookie_def and_then_def)
  show "\<not> throws (clearAll names w)"
    by (simp add: clearAll_def and_then_def clearSession_eq forEach_deleteCookie)
qed

text \<open>
  C4 fails on the code. \<^verbatim>\<open>hasSessionItem\<close> calls \<^verbatim>\<open>sessionStorage.getItem\<close> outside any
  \<^verbatim>\<open>try\<close>: where the session storage throws, the exception reaches the caller and nothing is
  logged.
\<close>

theorem hasSessionItem_raises:
  "hasSessionItem ''cart_user_A'' blocked_world = Throw SecurityError blocked_world
   \<and> throws (hasSessionItem ''cart_user_A'' blocked_world)
   \<and> console (state_of (hasSessionItem ''cart_user_A'' blocked_world)) = []"
  by (simp add: hasSessionItem_def and_then_def sessionStorage_getItem_def blocked_world_def
      fresh_world_def)

section \<open>Favorites: merge on login\<close>

lemma keys_update: "fst ` set (AList.update k v al) = insert k (fst ` set al)"
  by (simp add: dom_update)

lemma set_update_subset: "set (AList.update k v al) \<subseteq> insert (k, v) (set al)"
  by (induction al) auto

lemma keyed_update:
  assumes "keyed m"
  shows "keyed (AList.update (productId x) x m)"
proof -
  have "distinct (map fst (AList.update (productId x) x m))"
    using assms by (simp add: keyed_def distinct_update)
  moreover have "fst kv = productId (snd kv)" if "kv \<in> set (AList.update (productId x) x m)" for kv
  proof -
    from that set_update_subset have "kv = (productId x, x) \<or> kv \<in> set m" by fastforce
    then show ?thesis using assms by (auto simp: keyed_def)
  qed
  ultimately show ?thesis by (simp add: keyed_def)
qed

lemma keyed_merge_server: "keyed m \<Longrightarrow> keyed (merge_server m x)"
  by (simp add: merge_server_def keyed_update)

lemma keyed_merge_local: "keyed m \<Longrightarrow> keyed (merge_local m x)"
  by (simp add: merge_local_def keyed_update Let_def split: option.splits)

lemma keyed_foldl_server: "keyed m \<Longrightarrow> keyed (foldl merge_server m xs)"
  by (induction xs arbitrary: m) (simp_all add: keyed_merge_server)

lemma keyed_foldl_local: "keyed m \<Longrightarrow> keyed (foldl merge_local m xs)"
  by (induction xs arbitrary: m) (simp_all add: keyed_merge_local)

lemma keys_merge_server: "fst ` set (merge_server m x) = insert (productId x) (fst ` set m)"
  by (simp add: merge_server_def keys_update)

lemma keys_merge_local: "fst ` set (merge_local m x) = insert (productId x) (fst ` set m)"
proof (cases "map_of m (productId x)")
  case None
  then show ?thesis by (simp add: merge_local_def keys_update)
next
  case (Some e)
  then have "productId x \<in> fst ` set m" by (metis map_of_eq_None_iff option.distinct(1))
  with Some show ?thesis by (auto simp: merge_local_def keys_update Let_def)
qed

lemma keys_foldl_server:
  "fst ` set (foldl merge_server m xs) = fst ` set m \<union> productId ` set xs"
  by (induction xs arbitrary: m) (auto simp: keys_merge_server)

lemma keys_foldl_local:
  "fst ` set (foldl merge_local m xs) = fst ` set m \<union> productId ` set xs"
  by (induction xs arbitrary: m) (auto simp: keys_merge_local)

lemma map_of_foldl_server:
  assumes "distinct (map productId xs)" "x \<in> set xs"
  shows "map_of (foldl merge_server m xs) (productId x) = Some x"
  using assms
proof (induction xs arbitrary: x rule: rev_induct)
  case Nil
  then show ?case by simp
next
  case (snoc y ys)
  show ?case
  proof (cases "x = y")
    case True
    then show ?thesis by (simp add: merge_server_def update_conv')
  next
    case False
    then have xs: "x \<in> set ys" using snoc.prems by auto
    have "productId y \<notin> productId ` set ys" using snoc.prems(1) by simp
    with xs have "productId x \<noteq> productId y" by (metis imageI)
    with xs show ?thesis using snoc by (simp add: merge_server_def update_conv')
  qed
qed

lemma map_of_foldl_server_other:
  "k \<notin> productId ` set xs \<Longrightarrow> map_of (foldl merge_server m xs) k = map_of m k"
  by (induction xs arbitrary: m) (auto simp: merge_server_def update_conv')

lemma map_of_merge_local_other:
  "k \<noteq> productId x \<Longrightarrow> map_of (merge_local m x) k = map_of m k"
  by (simp add: merge_local_def update_conv' Let_def split: option.splits)

lemma map_of_foldl_local_other:
  "k \<notin> productId ` set xs \<Longrightarrow> map_of (foldl merge_local m xs) k = map_of m k"
  by (induction xs arbitrary: m) (auto simp: map_of_merge_local_other)

lemma map_of_merge_local_same:
  "map_of (merge_local m x) (productId x) =
    (case map_of m (productId x) of
       None \<Rightarrow> Some x
     | Some e \<Rightarrow> Some (if addedAt x < addedAt e then x else e))"
  by (simp add: merge_local_def update_conv' Let_def new_Date_def split: option.splits)

lemma map_of_foldl_local:
  assumes "distinct (map productId xs)" "x \<in> set xs"
  shows "map_of (foldl merge_local m xs) (productId x) =
    (case map_of m (productId x) of
       None \<Rightarrow> Some x
     | Some e \<Rightarrow> Some (if addedAt x < addedAt e then x else e))"
  using assms
proof (induction xs arbitrary: x rule: rev_induct)
  case Nil
  then show ?case by simp
next
  case (snoc y ys)
  show ?case
  proof (cases "x = y")
    case True
    have "productId y \<notin> productId ` set ys" using snoc.prems(1) by auto
    then have "map_of (foldl merge_local m ys) (productId y) = map_of m (productId y)"
      by (rule map_of_foldl_local_other)
    then show ?thesis unfolding True by (simp add: map_of_merge_local_same)
  next
    case False
    then have xs: "x \<in> set ys" using snoc.prems by auto
    have "productId y \<notin> productId ` set ys" using snoc.prems(1) by simp
    with xs have "productId x \<noteq> productId y" by (metis imageI)
    with xs show ?thesis using snoc by (simp add: map_of_merge_local_other)
  qed
qed

lemma keyed_values:
  assumes "keyed m"
  shows "map productId (map snd m) = map fst m" and "(v \<in> set (map snd m)) = (map_of m (productId v) = Some v)"
proof -
  show "map productId (map snd m) = map fst m" using assms by (auto simp: keyed_def)
  have d: "distinct (map fst m)" using assms by (simp add: keyed_def)
  show "(v \<in> set (map snd m)) = (map_of m (productId v) = Some v)"
  proof
    assume "v \<in> set (map snd m)"
    then obtain k where "(k, v) \<in> set m" by auto
    moreover from this have "k = productId v" using assms by (auto simp: keyed_def)
    ultimately show "map_of m (productId v) = Some v" using d by simp
  next
    assume "map_of m (productId v) = Some v"
    then have "(productId v, v) \<in> set m" by (rule map_of_SomeD)
    then show "v \<in> set (map snd m)" by force
  qed
qed



section \<open>Logout, then login\<close>

lemma map_of_store_other:
  assumes "cookie_name_ok n" "k \<noteq> n"
  shows "map_of (store_cookie now (n @ ''='') 1000 jar) k = map_of jar k"
    and "map_of (live t (store_cookie now (n @ ''='') 1000 jar)) k = map_of (live t jar) k"
  using assms(2)
  by (simp_all add: store_cookie_delete [OF assms(1)] update_conv' delete_conv'
      map_of_live_update_other map_of_live_delete_other)

lemma auth_cookie_names:
  "cookie_name_ok ''auth_user''" "cookie_name_ok ''auth_token''" "cookie_name_ok ''auth_token_expiry''"
  by (simp_all add: cookie_name_ok_def is_blank_def code_def)

lemma map_of_delete_auth:
  assumes "k \<noteq> ''auth_user''" "k \<noteq> ''auth_token''" "k \<noteq> ''auth_token_expiry''"
  shows "map_of (store_cookie now ''auth_user='' 1000 jar) k = map_of jar k"
    and "map_of (store_cookie now ''auth_token='' 1000 jar) k = map_of jar k"
    and "map_of (store_cookie now ''auth_token_expiry='' 1000 jar) k = map_of jar k"
    and "map_of (live t (store_cookie now ''auth_user='' 1000 jar)) k = map_of (live t jar) k"
    and "map_of (live t (store_cookie now ''auth_token='' 1000 jar)) k = map_of (live t jar) k"
    and "map_of (live t (store_cookie now ''auth_token_expiry='' 1000 jar)) k = map_of (live t jar) k"
  using map_of_store_other [OF auth_cookie_names(1) assms(1)]
    map_of_store_other [OF auth_cookie_names(2) assms(2)]
    map_of_store_other [OF auth_cookie_names(3) assms(3)]
  by simp_all



section \<open>Remote sync\<close>

lemma parseFavorites_same [simp]: "parseFavorites favs = favs"
  by (simp add: parseFavorites_def new_Date_def map_idI)

lemma setCookie_sessionStorage [simp]:
  "sessionStorage (state_of (setCookie nm v days w)) = sessionStorage w"
  by (simp add: setCookie_eq console_error_def split: option.splits)

lemma syncCartWithBackend_eq:
  "syncCartWithBackend http w =
    (case http of
       Inl e \<Rightarrow> Return \<lparr>success = False, cart = Some (cartItems w)\<rparr>
                  (console_error ''Error syncing cart with backend:'' e w)
     | Inr r \<Rightarrow>
         if success r \<and> cart r \<noteq> None
         then Return r (state_of (saveCartToStorage (w\<lparr>cartItems := the (cart r)\<rparr>)))
         else Return r w)"
proof (cases http)
  case (Inl e)
  then show ?thesis
    by (simp add: syncCartWithBackend_def catchError_def tap_def try_catch_def and_then_def lift_def)
next
  case (Inr r)
  obtain s where "saveCartToStorage (w\<lparr>cartItems := the (cart r)\<rparr>) = Return () s"
    using saveCartToStorage_Return by blast
  then show ?thesis using Inr
    by (auto simp: syncCartWithBackend_def catchError_def tap_def try_catch_def and_then_def lift_def)
qed

lemma syncFavoritesWithBackend_eq:
  "syncFavoritesWithBackend http w =
    (case http of
       Inl e \<Rightarrow> Return \<lparr>fav_success = False, favorites = Some (favoriteItems w)\<rparr>
                  (console_error ''Error syncing favorites with backend:'' e w)
     | Inr r \<Rightarrow>
         if fav_success r \<and> favorites r \<noteq> None
         then Return r (state_of (saveFavoritesToStorage (w\<lparr>favoriteItems := the (favorites r)\<rparr>)))
         else Return r w)"
proof (cases http)
  case (Inl e)
  then show ?thesis
    by (simp add: syncFavoritesWithBackend_def catchError_def tap_def try_catch_def and_then_def
        lift_def)
next
  case (Inr r)
  obtain s where "saveFavoritesToStorage (w\<lparr>favoriteItems := the (favorites r)\<rparr>) = Return () s"
    using saveFavoritesToStorage_Return by blast
  then show ?thesis using Inr
    by (auto simp: syncFavoritesWithBackend_def catchError_def tap_def try_catch_def and_then_def
        lift_def)
qed



section \<open>Favorites: adding what is already there\<close>

lemma addToFavorites_present:
  assumes "isFavorite (productId p) w"
  shows "addToFavorites p w = Return () w"
  using assms by (simp add: addToFavorites_def isFavorite_def)

lemma addToFavorites_absent:
  assumes "\<not> isFavorite (productId p) w"
  shows "favoriteItems (state_of (addToFavorites p w)) = favoriteItems w @ [with_addedAt p (clock w)]"
  using assms by (simp add: addToFavorites_def isFavorite_def)

text \<open>
  C8. Adding a product id that is already a favorite changes nothing, whatever the other
  fields of the second product are. So after adding a product id that was not a favorite at
  time \<open>clock w\<close> and adding it again at any later time \<open>t\<close>, the collection has exactly one
  entry for that id, and its \<^verbatim>\<open>addedAt\<close> is the time of the first add.
\<close>

theorem addToFavorites_twice:
  assumes "\<not> isFavorite (productId p) w" and "productId p' = productId p"
  shows "addToFavorites p' ((state_of (addToFavorites p w))\<lparr>clock := t\<rparr>)
           = Return () ((state_of (addToFavorites p w))\<lparr>clock := t\<rparr>)
    \<and> filter (\<lambda>item. productId item = productId p)
        (favoriteItems (state_of (addToFavorites p' ((state_of (addToFavorites p w))\<lparr>clock := t\<rparr>))))
           = [with_addedAt p (clock w)]
    \<and> addedAt (with_addedAt p (clock w)) = clock w"
proof -
  let ?w1 = "state_of (addToFavorites p w)"
  have items: "favoriteItems ?w1 = favoriteItems w @ [with_addedAt p (clock w)]"
    using assms(1) by (rule addToFavorites_absent)
  have pid: "productId (with_addedAt p (clock w)) = productId p" by (simp add: with_addedAt_def)
  have none: "filter (\<lambda>item. productId item = productId p) (favoriteItems w) = []"
    using assms(1) by (auto simp: isFavorite_def list_ex_iff filter_empty_conv)
  have "isFavorite (productId p') (?w1\<lparr>clock := t\<rparr>)"
    using items pid assms(2) by (simp add: isFavorite_def list_ex_iff)
  then have noop: "addToFavorites p' (?w1\<lparr>clock := t\<rparr>) = Return () (?w1\<lparr>clock := t\<rparr>)"
    by (rule addToFavorites_present)
  moreover have "filter (\<lambda>item. productId item = productId p)
        (favoriteItems (state_of (addToFavorites p' (?w1\<lparr>clock := t\<rparr>))))
      = [with_addedAt p (clock w)]"
    unfolding noop using items pid none by simp
  moreover have "addedAt (with_addedAt p (clock w)) = clock w" by (simp add: with_addedAt_def)
  ultimately show ?thesis by blast
qed

theorem addToFavorites_twice_witness:
  "addToFavorites (film\<lparr>name := ''Other title'', price := 7\<rparr>)
       ((state_of (addToFavorites film fresh_world))\<lparr>clock := 9000\<rparr>)
     = Return () ((state_of (addToFavorites film fresh_world))\<lparr>clock := 9000\<rparr>)
    \<and> filter (\<lambda>item. productId item = productId film)
         (favoriteItems (state_of (addToFavorites (film\<lparr>name := ''Other title'', price := 7\<rparr>)
            ((state_of (addToFavorites film fresh_world))\<lparr>clock := 9000\<rparr>))))
       = [with_addedAt film (clock fresh_world)]
    \<and> addedAt (with_addedAt film (clock fresh_world)) = clock fresh_world"
  by (rule addToFavorites_twice) (simp_all add: isFavorite_def fresh_world_def film_def)

section \<open>AuthService: notifying the registered callbacks\<close>

text \<open>
  C9. \<^verbatim>\<open>notifyLogin\<close> never throws; it calls every registered callback with the user id, in
  registration order, each on the world the one before it left, whether that one returned or
  threw; for each that threw, the error is logged. \<^verbatim>\<open>notifyLogout\<close> does the same with the
  logout callbacks.
\<close>

theorem notifyLogin_calls_every_callback:
  "notifyLogin onLoginCallbacks userId w =
     Return ()
       (foldl (login_call userId)
          (console_log (''notifyLogin: Notifying '' @ show_nat (length onLoginCallbacks)
             @ '' callbacks'') w)
          (enumerate 0 onLoginCallbacks))
   \<and> notifyLogout onLogoutCallbacks w = Return () (foldl logout_call w onLogoutCallbacks)"
  using notifyLogin_eq notifyLogout_eq by (rule conjI)

section \<open>Token expiry without a stored credential\<close>

lemma map_of_absent: "k \<notin> fst ` set al \<Longrightarrow> map_of al k = None"
  by (simp add: map_of_eq_None_iff)

lemma expiry_read_absent:
  assumes "sessionStorage w TOKEN_EXPIRY_KEY = None" "jar_ok (cookie_jar w)"
    "''auth_token_expiry'' \<notin> fst ` set (live (clock w) (cookie_jar w))"
  shows "\<exists>w'. or_else (getSessionItem TOKEN_EXPIRY_KEY) (getCookie ''auth_token_expiry'') w
            = Return JNull w' \<and> clock w' = clock w"
proof -
  have "\<exists>w1. getSessionItem TOKEN_EXPIRY_KEY w = Return JNull w1
      \<and> cookie_jar w1 = cookie_jar w \<and> clock w1 = clock w \<and> cookie_fault w1 = cookie_fault w"
    using assms(1)
    by (cases "session_fault w (GetItem TOKEN_EXPIRY_KEY)")
       (simp_all add: getSessionItem_eq console_error_def)
  then obtain w1 where s: "getSessionItem TOKEN_EXPIRY_KEY w = Return JNull w1"
    and w1: "cookie_jar w1 = cookie_jar w" "clock w1 = clock w" "cookie_fault w1 = cookie_fault w"
    by blast
  have "\<exists>w'. getCookie ''auth_token_expiry'' w1 = Return JNull w' \<and> clock w' = clock w"
  proof (cases "cookie_fault w1 CookieRead")
    case (Some e)
    then show ?thesis using w1(2)
      by (simp add: getCookie_def try_catch_def and_then_def document_cookie_get_def
          console_error_def)
  next
    case None
    have "map_of (live (clock w1) (cookie_jar w1)) ''auth_token_expiry'' = None"
      using assms(3) w1 by (simp add: map_of_absent)
    then show ?thesis
      using getCookie_lookup [OF None, of "''auth_token_expiry''"] assms(2) w1 by simp
  qed
  then show ?thesis using s by (auto simp: or_else_def and_then_def)
qed

text \<open>
  C10. With no value under \<^verbatim>\<open>auth_token_expiry\<close> in the session storage and no live cookie of
  that name, \<^verbatim>\<open>isTokenExpired()\<close> returns true and \<^verbatim>\<open>isTokenExpiringSoon()\<close> returns false
  in the same world, whether or not the tier primitives throw.
\<close>

theorem no_expiry_is_expired_but_not_expiring:
  assumes "sessionStorage w TOKEN_EXPIRY_KEY = None"
    and "jar_ok (cookie_jar w)"
    and "''auth_token_expiry'' \<notin> fst ` set (live (clock w) (cookie_jar w))"
  shows "value_of (isTokenExpired w) = Some True \<and> value_of (isTokenExpiringSoon w) = Some False"
proof -
  from expiry_read_absent [OF assms] obtain w'
    where "or_else (getSessionItem TOKEN_EXPIRY_KEY) (getCookie ''auth_token_expiry'') w = Return JNull w'"
    by blast
  then show ?thesis by (simp add: isTokenExpired_def isTokenExpiringSoon_def and_then_def)
qed

theorem no_expiry_is_expired_but_not_expiring_witness:
  "value_of (isTokenExpired fresh_world) = Some True
    \<and> value_of (isTokenExpiringSoon fresh_world) = Some False"
  using no_expiry_is_expired_but_not_expiring [of fresh_world]
  by (simp add: fresh_world_def jar_ok_def live_def)


end
